theory Spec2Isabelle
  imports Complex_Main "HOL-Library.Log_Nat"
begin

section \<open>Evolutionary reinforcement learning in a signaling game (Polya urn)\<close>

text \<open>
  A shallow embedding of the notebook \<^verbatim>\<open>4_Evo_Signaling_Game_Urn.ipynb\<close>: the classes
  \<^verbatim>\<open>SignalingGameEnv\<close>, \<^verbatim>\<open>Gene\<close>, \<^verbatim>\<open>UrnAgent\<close> and \<^verbatim>\<open>Creature\<close>, the configuration
  cell and the evolution loop.

  Conventions of the embedding.
  \<^item> A finite Python float or numpy \<^verbatim>\<open>float64\<close> is the real number it denotes. An
    arithmetic operation of the code is the exact operation followed by the rounding \<open>fl\<close>
    of IEEE 754 binary64 (to nearest, ties to even). The float parameters of the
    configuration, the bounds of a gene and a literal initial bias are floats, so that a
    values array has dtype \<^verbatim>\<open>float64\<close>; the dtype itself is not recorded.
  \<^item> A two-dimensional numpy array is the list of its rows.
  \<^item> Observations, choices and population indices are produced by the generator from
    \<^verbatim>\<open>range(n)\<close>, so they are \<open>nat\<close>; an index beyond the end raises \<^verbatim>\<open>IndexError\<close>.
  \<^item> The two agent names \<^verbatim>\<open>'sender'\<close> and \<^verbatim>\<open>'receiver'\<close> are the datatype \<open>role\<close>.
  \<^item> A Python exception is a value \<open>Inl e\<close> of the sum type \<open>error + 'a\<close>.
  \<^item> The global generator \<^verbatim>\<open>rng\<close> is not simulated. Every call to it takes the outcome
    of the draw as an argument. The model of the call decides whether numpy rejects the
    arguments, and then whether the outcome is one that the call with these arguments can
    return (its shape, its range).
  \<^item> The value \<open>Unmodelled\<close> is no Python exception. It ends a run that the embedding does
    not follow: a float operation has produced \<^verbatim>\<open>inf\<close>, the outcome handed to a call of the
    generator is none that the call can return, or a result depends on the order in which
    numpy adds up an array or on the rounding of a sum at the edge of a tolerance.
\<close>

datatype error = AssertionError | AttributeError | IndexError | OverflowError | ValueError |
  ZeroDivisionError | Unmodelled

datatype role = Sender | Receiver

type_synonym 'a ndarray = "'a list list"

subsection \<open>Floats\<close>

text \<open>
  \<open>rne t\<close> rounds a non-negative real to the nearest integer, a tie to the even one.
\<close>

definition rne :: "real \<Rightarrow> int" where
  "rne t = (if t - of_int \<lfloor>t\<rfloor> < 1/2 then \<lfloor>t\<rfloor>
            else if 1/2 < t - of_int \<lfloor>t\<rfloor> then \<lfloor>t\<rfloor> + 1
            else if even \<lfloor>t\<rfloor> then \<lfloor>t\<rfloor> else \<lfloor>t\<rfloor> + 1)"

text \<open>
  The doubles next to a real \<open>x\<close> are multiples of \<open>quantum x\<close>: with
  \<open>2 ^ e \<le> \<bar>x\<bar> < 2 ^ (e + 1)\<close> the quantum is \<open>2 ^ (e - 52)\<close> (a significand of 53 bits),
  and it is \<open>2 ^ -1074\<close> for \<open>e < -1022\<close>, the subnormal range. \<open>bitlen n\<close> is the number of
  binary digits of \<open>n\<close>.
\<close>

definition expo :: "real \<Rightarrow> nat" where
  "expo x = nat (bitlen \<lfloor>\<bar>x\<bar> * 2 ^ 1074\<rfloor> - 53)"

definition quantum :: "real \<Rightarrow> real" where
  "quantum x = 2 ^ expo x / 2 ^ 1074"

text \<open>
  \<open>fl x\<close>: the real \<open>x\<close> rounded to binary64, with no upper limit on the exponent. The
  operation of the machine yields \<open>fl x\<close> when \<open>\<bar>fl x\<bar> < 2 ^ 1024\<close> and an infinity
  otherwise.
\<close>

definition fl :: "real \<Rightarrow> real" where
  "fl x = sgn x * (of_int (rne (\<bar>x\<bar> / quantum x)) * quantum x)"

definition finite64 :: "real \<Rightarrow> bool" where
  "finite64 x = (\<bar>x\<bar> < 2 ^ 1024)"

text \<open>A float operation whose exact result is \<open>x\<close>; the run is not followed beyond an infinity.\<close>

definition round64 :: "real \<Rightarrow> error + real" where
  "round64 x = (if finite64 (fl x) then Inr (fl x) else Inl Unmodelled)"

subsection \<open>Arrays\<close>

text \<open>\<open>has_shape (r, c) xs\<close>: the array has \<open>r\<close> rows of \<open>c\<close> entries each.\<close>

definition has_shape :: "nat \<times> nat \<Rightarrow> 'a ndarray \<Rightarrow> bool" where
  "has_shape sz xs = (length xs = fst sz \<and> list_all (\<lambda>row. length row = snd sz) xs)"

text \<open>\<open>all_entries P xs\<close>: every entry of the array satisfies \<open>P\<close>.\<close>

definition all_entries :: "('a \<Rightarrow> bool) \<Rightarrow> 'a ndarray \<Rightarrow> bool" where
  "all_entries P xs = list_all (list_all P) xs"

text \<open>\<^verbatim>\<open>np.full(size, v)\<close>.\<close>

definition np_full :: "nat \<times> nat \<Rightarrow> 'a \<Rightarrow> 'a ndarray" where
  "np_full sz v = replicate (fst sz) (replicate (snd sz) v)"

text \<open>
  \<^verbatim>\<open>np.where(c, x, y)\<close> on three arrays of one shape: entry by entry, \<open>x\<close> where the
  condition holds and \<open>y\<close> elsewhere. The program only passes arrays of one shape (the mask
  is drawn with the gene's size). On operands of different shapes numpy either
  broadcasts an axis of length 1 or raises \<^verbatim>\<open>ValueError\<close>; broadcasting is not modelled,
  every disagreement of shapes is the \<^verbatim>\<open>ValueError\<close>.
\<close>

definition where_row :: "bool list \<Rightarrow> 'a list \<Rightarrow> 'a list \<Rightarrow> 'a list" where
  "where_row c x y = map (\<lambda>(b, u, v). if b then u else v) (zip c (zip x y))"

definition np_where :: "bool ndarray \<Rightarrow> 'a ndarray \<Rightarrow> 'a ndarray \<Rightarrow> error + 'a ndarray" where
  "np_where c x y =
     (if map length x = map length c \<and> map length y = map length c
      then Inr (map (\<lambda>(cr, xr, yr). where_row cr xr yr) (zip c (zip x y)))
      else Inl ValueError)"

text \<open>
  The sum \<^verbatim>\<open>x + y\<close> of two rows of one length, entry by entry (the caller compares the
  lengths).
\<close>

definition np_add :: "real list \<Rightarrow> real list \<Rightarrow> error + real list" where
  "np_add x y =
     (if list_all finite64 (map (\<lambda>(b, v). fl (b + v)) (zip x y))
      then Inr (map (\<lambda>(b, v). fl (b + v)) (zip x y))
      else Inl Unmodelled)"

text \<open>
  \<^verbatim>\<open>row.sum()\<close>. A row of at most two entries is added up by at most one rounded
  addition. For a longer row the result can depend on the order in which numpy adds the
  entries; it does not when every entry is an integer and the absolute values add up to at
  most \<open>2 ^ 53\<close>, since then every partial sum is a double and the result is the exact sum.
  The embedding follows a longer row only in that case.
\<close>

definition exact_sum :: "real list \<Rightarrow> bool" where
  "exact_sum row = (list_all (\<lambda>x. x = of_int \<lfloor>x\<rfloor>) row \<and> sum_list (map abs row) \<le> 2 ^ 53)"

fun np_sum :: "real list \<Rightarrow> error + real" where
  "np_sum [] = Inr 0"
| "np_sum [a] = Inr a"
| "np_sum [a, b] = round64 (a + b)"
| "np_sum (a # b # c # rest) =
     (if exact_sum (a # b # c # rest) then Inr (sum_list (a # b # c # rest)) else Inl Unmodelled)"

subsection \<open>The calls to the random generator\<close>

text \<open>
  An outcome of \<^verbatim>\<open>rng.uniform(low, high, size)\<close>: the shape is \<open>size\<close> and every entry is
  \<open>low + (high - low) * u\<close>, rounded, for a double \<open>u\<close> in \<open>[0, 1)\<close>. Such an entry lies in
  the closed interval \<open>[low, high]\<close>; for \<open>low = 0\<close> and \<open>high = 1\<close> it is \<open>u\<close> itself, below 1.
\<close>

definition in_uniform :: "real \<Rightarrow> real \<Rightarrow> real \<Rightarrow> bool" where
  "in_uniform low high x = (if low = 0 \<and> high = 1 then 0 \<le> x \<and> x < 1 else low \<le> x \<and> x \<le> high)"

definition uniform_outcome :: "real \<Rightarrow> real \<Rightarrow> nat \<times> nat \<Rightarrow> real ndarray \<Rightarrow> bool" where
  "uniform_outcome low high sz draw = (has_shape sz draw \<and> all_entries (in_uniform low high) draw)"

text \<open>
  \<^verbatim>\<open>rng.uniform(low, high, size)\<close>: numpy's \<^verbatim>\<open>Generator.uniform\<close> computes the float
  \<^verbatim>\<open>high - low\<close>, raises \<^verbatim>\<open>OverflowError\<close> when it is not finite and then \<^verbatim>\<open>ValueError\<close>
  when it is negative; for the doubles \<open>low\<close> and \<open>high\<close> the difference is negative exactly
  when \<open>high < low\<close>. Otherwise the call returns the draw, which is an outcome for these
  very arguments.
\<close>

definition rng_uniform :: "real \<Rightarrow> real \<Rightarrow> nat \<times> nat \<Rightarrow> real ndarray \<Rightarrow> error + real ndarray" where
  "rng_uniform low high sz draw =
     (if \<not> finite64 (fl (high - low)) then Inl OverflowError
      else if high < low then Inl ValueError
      else if uniform_outcome low high sz draw then Inr draw
      else Inl Unmodelled)"

text \<open>
  \<^verbatim>\<open>rng.integers(low, high, size)\<close> draws an array of integers from \<open>[low, high)\<close> and
  raises \<^verbatim>\<open>ValueError\<close> when the interval is empty.
\<close>

definition integers_outcome :: "int \<Rightarrow> int \<Rightarrow> nat \<times> nat \<Rightarrow> int ndarray \<Rightarrow> bool" where
  "integers_outcome low high sz draw = (has_shape sz draw \<and> all_entries (\<lambda>m. low \<le> m \<and> m < high) draw)"

definition rng_integers :: "int \<Rightarrow> int \<Rightarrow> nat \<times> nat \<Rightarrow> int ndarray \<Rightarrow> error + int ndarray" where
  "rng_integers low high sz draw =
     (if high \<le> low then Inl ValueError
      else if integers_outcome low high sz draw then Inr draw
      else Inl Unmodelled)"

text \<open>\<^verbatim>\<open>rng.integers(low, high)\<close> without a size draws one integer; the program uses it as an
  index, with \<open>low = 0\<close>.\<close>

definition rng_integers_scalar :: "int \<Rightarrow> int \<Rightarrow> nat \<Rightarrow> error + nat" where
  "rng_integers_scalar low high draw =
     (if high \<le> low then Inl ValueError
      else if low \<le> int draw \<and> int draw < high then Inr draw
      else Inl Unmodelled)"

text \<open>
  \<^verbatim>\<open>rng.choice(n, p=p)\<close> (also over \<^verbatim>\<open>np.arange(n)\<close> or a list of \<open>n\<close> objects): numpy
  raises \<^verbatim>\<open>ValueError\<close> when there is nothing to choose from, when \<open>p\<close> has another
  length or a negative entry, and when the float sum of \<open>p\<close> differs from 1 by more than
  the tolerance \<^verbatim>\<open>sqrt(eps)\<close>, which is \<open>2 ^ -26\<close>. The float sum differs from the exact sum
  by less than \<open>sum_slack p\<close>, whatever the order of the additions; when the exact sum is
  that close to the edge of the tolerance, the embedding does not follow the run. The
  outcome is an index below \<open>n\<close>.
\<close>

definition choice_atol :: real where
  "choice_atol = 1 / 2 ^ 26"

definition sum_slack :: "real list \<Rightarrow> real" where
  "sum_slack p = real (length p) * sum_list (map abs p) / 2 ^ 50"

definition sum_off :: "real list \<Rightarrow> bool" where
  "sum_off p = (choice_atol + sum_slack p < \<bar>sum_list p - 1\<bar>)"

definition sum_near :: "real list \<Rightarrow> bool" where
  "sum_near p = (\<bar>sum_list p - 1\<bar> \<le> choice_atol - sum_slack p)"

definition rng_choice_p :: "nat \<Rightarrow> real list \<Rightarrow> nat \<Rightarrow> error + nat" where
  "rng_choice_p n p draw =
     (if n = 0 \<or> length p \<noteq> n \<or> \<not> list_all (\<lambda>x. 0 \<le> x) p \<or> sum_off p then Inl ValueError
      else if sum_near p \<and> draw < n then Inr draw
      else Inl Unmodelled)"

text \<open>
  \<^verbatim>\<open>rng.choice(population, k, replace=False)\<close>: numpy raises \<^verbatim>\<open>ValueError\<close> ("Cannot take
  a larger sample than population when replace is False") when \<open>k\<close> exceeds the number
  of objects. The outcome is a list of \<open>k\<close> distinct indices.
\<close>

definition sample_outcome :: "nat \<Rightarrow> nat \<Rightarrow> nat list \<Rightarrow> bool" where
  "sample_outcome n k draw = (length draw = k \<and> distinct draw \<and> list_all (\<lambda>i. i < n) draw)"

definition rng_choice_sample :: "nat \<Rightarrow> nat \<Rightarrow> nat list \<Rightarrow> error + nat list" where
  "rng_choice_sample n k draw =
     (if n < k then Inl ValueError
      else if sample_outcome n k draw then Inr draw
      else Inl Unmodelled)"

text \<open>
  \<^verbatim>\<open>rng.geometric(p)\<close>: numpy raises \<^verbatim>\<open>ValueError\<close> unless \<open>0 < p \<le> 1\<close>; the outcome is at
  least 1.
\<close>

definition rng_geometric :: "real \<Rightarrow> int \<Rightarrow> error + int" where
  "rng_geometric p draw =
     (if p \<le> 0 \<or> 1 < p then Inl ValueError
      else if 1 \<le> draw then Inr draw
      else Inl Unmodelled)"

subsection \<open>SignalingGameEnv\<close>

text \<open>
  The attributes \<^verbatim>\<open>message\<close> and \<^verbatim>\<open>action\<close> do not exist until \<^verbatim>\<open>step\<close> assigns them:
  \<open>None\<close> is the missing attribute, whose read raises \<^verbatim>\<open>AttributeError\<close>. \<^verbatim>\<open>success\<close> is
  Python's \<^verbatim>\<open>None\<close>, \<^verbatim>\<open>True\<close> or \<^verbatim>\<open>False\<close>.
\<close>

record env =
  num_states :: nat
  num_messages :: nat
  state_dist :: "real list"
  state :: nat
  success :: "bool option"
  done_flag :: bool
  agent_selection :: role
  message :: "nat option"
  action :: "nat option"

definition reset :: "env \<Rightarrow> nat \<Rightarrow> error + env" where
  "reset e state_draw =
     (case rng_choice_p (num_states e) (state_dist e) state_draw of
        Inl err \<Rightarrow> Inl err
      | Inr s \<Rightarrow> Inr (e\<lparr>state := s, success := None, done_flag := False, agent_selection := Sender\<rparr>))"

text \<open>
  The constructor stores its three arguments and calls \<^verbatim>\<open>reset\<close>, which assigns
  \<^verbatim>\<open>state\<close>, \<^verbatim>\<open>success\<close>, \<^verbatim>\<open>done\<close> and \<^verbatim>\<open>agent_selection\<close>: the values those four fields
  have before the call are never read.
\<close>

definition SignalingGameEnv :: "nat \<Rightarrow> nat \<Rightarrow> real list \<Rightarrow> nat \<Rightarrow> error + env" where
  "SignalingGameEnv ns nm sd state_draw =
     reset \<lparr>num_states = ns, num_messages = nm, state_dist = sd, state = 0, success = None,
            done_flag = False, agent_selection = Sender, message = None, action = None\<rparr> state_draw"

definition observe :: "env \<Rightarrow> role \<Rightarrow> error + nat" where
  "observe e agent_name =
     (case agent_name of
        Sender \<Rightarrow> Inr (state e)
      | Receiver \<Rightarrow> (case message e of None \<Rightarrow> Inl AttributeError | Some m \<Rightarrow> Inr m))"

definition step :: "env \<Rightarrow> nat \<Rightarrow> error + env" where
  "step e act =
     (if done_flag e then Inl AssertionError
      else (case agent_selection e of
              Sender \<Rightarrow> Inr (e\<lparr>message := Some act, agent_selection := Receiver\<rparr>)
            | Receiver \<Rightarrow> Inr (e\<lparr>action := Some act, success := Some (state e = act), done_flag := True\<rparr>)))"

subsection \<open>Gene\<close>

text \<open>The argument \<^verbatim>\<open>init_values\<close>: the string \<^verbatim>\<open>'random'\<close> or a float.\<close>

datatype init_spec = Random | Literal real

record gene =
  size_g :: "nat \<times> nat"
  min_val :: real
  max_val :: real
  init_values :: init_spec
  values_g :: "real ndarray"

definition Gene :: "nat \<times> nat \<Rightarrow> real \<Rightarrow> real \<Rightarrow> init_spec \<Rightarrow> real ndarray \<Rightarrow> error + gene" where
  "Gene sz lo hi init init_draw =
     (case init of
        Random \<Rightarrow>
          (case rng_uniform lo hi sz init_draw of
             Inl err \<Rightarrow> Inl err
           | Inr vs \<Rightarrow> Inr \<lparr>size_g = sz, min_val = lo, max_val = hi, init_values = init, values_g = vs\<rparr>)
      | Literal v \<Rightarrow>
          Inr \<lparr>size_g = sz, min_val = lo, max_val = hi, init_values = init, values_g = np_full sz v\<rparr>)"

text \<open>
  \<^verbatim>\<open>crossover\<close> builds a new gene with the constructor (which draws when the parent was
  initialised at random), draws the mask and overwrites the new gene's values.
\<close>

definition crossover :: "gene \<Rightarrow> gene \<Rightarrow> real ndarray \<Rightarrow> int ndarray \<Rightarrow> error + gene" where
  "crossover self other_gene init_draw mask_draw =
     (case Gene (size_g self) (min_val self) (max_val self) (init_values self) init_draw of
        Inl err \<Rightarrow> Inl err
      | Inr new_gene \<Rightarrow>
          (case rng_integers 0 2 (size_g self) mask_draw of
             Inl err \<Rightarrow> Inl err
           | Inr random_mask \<Rightarrow>
               (case np_where (map (map (\<lambda>m. m \<noteq> 0)) random_mask) (values_g self) (values_g other_gene) of
                  Inl err \<Rightarrow> Inl err
                | Inr vs \<Rightarrow> Inr (new_gene\<lparr>values_g := vs\<rparr>))))"

text \<open>
  \<^verbatim>\<open>mutate\<close> assigns \<^verbatim>\<open>self.values\<close> and returns \<^verbatim>\<open>self\<close>: the result is the gene after
  the assignment. Both draws happen whatever the rate is.
\<close>

definition mutate :: "gene \<Rightarrow> real \<Rightarrow> real ndarray \<Rightarrow> real ndarray \<Rightarrow> error + gene" where
  "mutate self mutation_rate mask_draw fresh_draw =
     (case rng_uniform 0 1 (size_g self) mask_draw of
        Inl err \<Rightarrow> Inl err
      | Inr u \<Rightarrow>
          (case rng_uniform (min_val self) (max_val self) (size_g self) fresh_draw of
             Inl err \<Rightarrow> Inl err
           | Inr fresh \<Rightarrow>
               (case np_where (map (map (\<lambda>x. x < mutation_rate)) u) fresh (values_g self) of
                  Inl err \<Rightarrow> Inl err
                | Inr vs \<Rightarrow> Inr (self\<lparr>values_g := vs\<rparr>))))"

text \<open>The invariant the notebook states for a gene: every value lies in \<open>[min_val, max_val]\<close>.\<close>

definition in_bounds :: "gene \<Rightarrow> bool" where
  "in_bounds g = all_entries (\<lambda>x. min_val g \<le> x \<and> x \<le> max_val g) (values_g g)"

subsection \<open>The store of Gene objects\<close>

text \<open>
  Gene objects are shared by reference and \<^verbatim>\<open>mutate\<close> changes them in place, so the
  evolution loop runs on an explicit store: the list of all Gene objects created so far.
  The address of a gene is its position; a new object is appended.
\<close>

definition crossover_at :: "gene list \<Rightarrow> nat \<Rightarrow> nat \<Rightarrow> real ndarray \<Rightarrow> int ndarray \<Rightarrow> error + (nat \<times> gene list)" where
  "crossover_at h a b init_draw mask_draw =
     (case crossover (h ! a) (h ! b) init_draw mask_draw of
        Inl err \<Rightarrow> Inl err
      | Inr new_gene \<Rightarrow> Inr (length h, h @ [new_gene]))"

definition mutate_at :: "gene list \<Rightarrow> nat \<Rightarrow> real \<Rightarrow> real ndarray \<Rightarrow> real ndarray \<Rightarrow> error + gene list" where
  "mutate_at h a mutation_rate mask_draw fresh_draw =
     (case mutate (h ! a) mutation_rate mask_draw fresh_draw of
        Inl err \<Rightarrow> Inl err
      | Inr g \<Rightarrow> Inr (h[a := g]))"

subsection \<open>UrnAgent\<close>

text \<open>
  \<open>bias_gene\<close> is the address of the agent's Gene object. A record of the buffer is
  \<open>(obs, choice, reward)\<close>.
\<close>

record urn_agent =
  bias_gene :: nat
  num_obs :: nat
  num_choices :: nat
  urn_balls :: "real ndarray"
  urn_sum_balls :: "real list"
  train_buf :: "(nat \<times> nat \<times> real) list"

text \<open>
  The loop \<^verbatim>\<open>for obs in range(self.num_obs)\<close> of the constructor. \<open>vs\<close> is
  \<^verbatim>\<open>bias_gene.values\<close>: a missing row raises \<^verbatim>\<open>IndexError\<close>, a row of another length than the
  urn raises \<^verbatim>\<open>ValueError\<close> in \<^verbatim>\<open>+=\<close> (broadcasting of a row of length 1 is not modelled).
  The urn \<open>obs\<close> exists, since \<open>urn_balls\<close> was built with \<open>num_obs\<close> rows. The running sum
  of the urn is replaced by the float sum of its row.
\<close>

fun apply_bias :: "real ndarray \<Rightarrow> nat list \<Rightarrow> urn_agent \<Rightarrow> error + urn_agent" where
  "apply_bias vs [] self = Inr self"
| "apply_bias vs (obs # rest) self =
     (if length vs \<le> obs then Inl IndexError
      else if length (vs ! obs) \<noteq> length (urn_balls self ! obs) then Inl ValueError
      else (case np_add (urn_balls self ! obs) (vs ! obs) of
              Inl err \<Rightarrow> Inl err
            | Inr row \<Rightarrow>
                (case np_sum row of
                   Inl err \<Rightarrow> Inl err
                 | Inr new_sum \<Rightarrow>
                     apply_bias vs rest
                       (self\<lparr>urn_balls := (urn_balls self)[obs := row],
                              urn_sum_balls := (urn_sum_balls self)[obs := new_sum]\<rparr>))))"

definition UrnAgent :: "gene list \<Rightarrow> nat \<Rightarrow> error + urn_agent" where
  "UrnAgent h a =
     (let n_obs = fst (size_g (h ! a)); n_choices = snd (size_g (h ! a))
      in apply_bias (values_g (h ! a)) [0..<n_obs]
           \<lparr>bias_gene = a, num_obs = n_obs, num_choices = n_choices,
            urn_balls = replicate n_obs (replicate n_choices 1),
            urn_sum_balls = replicate n_obs (real n_choices),
            train_buf = []\<rparr>)"

text \<open>
  The probabilities \<^verbatim>\<open>p = self.urn_balls[obs] / self.urn_sum_balls[obs]\<close>: every ball count
  is divided by the running sum, and the quotient is rounded.
\<close>

definition urn_probs :: "urn_agent \<Rightarrow> nat \<Rightarrow> real list" where
  "urn_probs self obs = map (\<lambda>b. fl (b / (urn_sum_balls self ! obs))) (urn_balls self ! obs)"

text \<open>
  \<^verbatim>\<open>get_action\<close> returns the drawn choice or raises; in both cases the agent is returned
  with the result, as the method leaves it. A sum of zero makes numpy divide to \<^verbatim>\<open>nan\<close> or
  \<^verbatim>\<open>inf\<close>, and a quotient can overflow to \<^verbatim>\<open>inf\<close>; \<^verbatim>\<open>rng.choice\<close> rejects such a \<open>p\<close>
  with \<^verbatim>\<open>ValueError\<close>.
\<close>

definition get_action :: "urn_agent \<Rightarrow> nat \<Rightarrow> nat \<Rightarrow> (error + nat) \<times> urn_agent" where
  "get_action self obs choice_draw =
     (if length (urn_balls self) \<le> obs \<or> length (urn_sum_balls self) \<le> obs then (Inl IndexError, self)
      else if urn_sum_balls self ! obs = 0 \<or> \<not> list_all finite64 (urn_probs self obs)
      then (Inl ValueError, self)
      else (rng_choice_p (num_choices self) (urn_probs self obs) choice_draw, self))"

definition store_buffer :: "urn_agent \<Rightarrow> nat \<Rightarrow> nat \<Rightarrow> urn_agent" where
  "store_buffer self obs choice = self\<lparr>train_buf := train_buf self @ [(obs, choice, 0)]\<rparr>"

text \<open>\<^verbatim>\<open>update_reward\<close> adds the reward to the third component of the last record.\<close>

definition update_reward :: "urn_agent \<Rightarrow> real \<Rightarrow> error + urn_agent" where
  "update_reward self reward =
     (if 0 < length (train_buf self)
      then (case last (train_buf self) of
              (obs, choice, r) \<Rightarrow>
                (case round64 (r + reward) of
                   Inl err \<Rightarrow> Inl err
                 | Inr r' \<Rightarrow> Inr (self\<lparr>train_buf := butlast (train_buf self) @ [(obs, choice, r')]\<rparr>)))
      else Inr self)"

text \<open>
  The loop of \<^verbatim>\<open>train\<close> over the buffer: the two statements
  \<^verbatim>\<open>self.urn_balls[obs][choice] += reward\<close> and \<^verbatim>\<open>self.urn_sum_balls[obs] += reward\<close>, each a
  rounded addition. A record that names no urn, or no ball of its urn, raises
  \<^verbatim>\<open>IndexError\<close> and leaves the loop.
\<close>

fun train_loop :: "(nat \<times> nat \<times> real) list \<Rightarrow> urn_agent \<Rightarrow> error + urn_agent" where
  "train_loop [] self = Inr self"
| "train_loop ((obs, choice, reward) # rest) self =
     (if length (urn_balls self) \<le> obs then Inl IndexError
      else if length (urn_balls self ! obs) \<le> choice then Inl IndexError
      else (case round64 (urn_balls self ! obs ! choice + reward) of
              Inl err \<Rightarrow> Inl err
            | Inr ball \<Rightarrow>
                (if length (urn_sum_balls self) \<le> obs then Inl IndexError
                 else (case round64 (urn_sum_balls self ! obs + reward) of
                         Inl err \<Rightarrow> Inl err
                       | Inr new_sum \<Rightarrow>
                           train_loop rest
                             (self\<lparr>urn_balls := (urn_balls self)[obs := (urn_balls self ! obs)[choice := ball]],
                                    urn_sum_balls := (urn_sum_balls self)[obs := new_sum]\<rparr>)))))"

definition train :: "urn_agent \<Rightarrow> error + urn_agent" where
  "train self =
     (case train_loop (train_buf self) self of
        Inl err \<Rightarrow> Inl err
      | Inr self' \<Rightarrow> Inr (self'\<lparr>train_buf := []\<rparr>))"

text \<open>
  The state of an agent as the constructor and the methods keep it: \<open>num_obs\<close> urns of
  \<open>num_choices\<close> balls each and one running sum per urn.
\<close>

definition agent_shape :: "urn_agent \<Rightarrow> bool" where
  "agent_shape self =
     (has_shape (num_obs self, num_choices self) (urn_balls self) \<and> length (urn_sum_balls self) = num_obs self)"

text \<open>Every record of the buffer names an urn and a ball of the agent.\<close>

definition buf_in_range :: "urn_agent \<Rightarrow> bool" where
  "buf_in_range self = list_all (\<lambda>(obs, choice, reward). obs < num_obs self \<and> choice < num_choices self) (train_buf self)"

text \<open>The rewards that the buffer holds for an urn, and for one ball of an urn, in the order
  of the buffer.\<close>

definition obs_rewards :: "(nat \<times> nat \<times> real) list \<Rightarrow> nat \<Rightarrow> real list" where
  "obs_rewards buf obs = map (\<lambda>(ob, ch, r). r) (filter (\<lambda>(ob, ch, r). ob = obs) buf)"

definition ball_rewards :: "(nat \<times> nat \<times> real) list \<Rightarrow> nat \<Rightarrow> nat \<Rightarrow> real list" where
  "ball_rewards buf obs choice = map (\<lambda>(ob, ch, r). r) (filter (\<lambda>(ob, ch, r). ob = obs \<and> ch = choice) buf)"

text \<open>A count after the rounded additions of a list of rewards, one after the other.\<close>

definition add_rounded :: "real \<Rightarrow> real list \<Rightarrow> real" where
  "add_rounded s rs = foldl (\<lambda>t r. fl (t + r)) s rs"

text \<open>None of these additions overflows.\<close>

fun adds_finite :: "real \<Rightarrow> real list \<Rightarrow> bool" where
  "adds_finite s [] = True"
| "adds_finite s (r # rs) = (finite64 (fl (s + r)) \<and> adds_finite (fl (s + r)) rs)"

text \<open>Every one of these additions is exact: the sum is a finite double.\<close>

fun adds_exact :: "real \<Rightarrow> real list \<Rightarrow> bool" where
  "adds_exact s [] = True"
| "adds_exact s (r # rs) = (fl (s + r) = s + r \<and> finite64 (s + r) \<and> adds_exact (s + r) rs)"

text \<open>The total reward the buffer holds for an urn, and for one ball of an urn.\<close>

definition obs_reward :: "(nat \<times> nat \<times> real) list \<Rightarrow> nat \<Rightarrow> real" where
  "obs_reward buf obs = sum_list (map (\<lambda>(ob, ch, r). if ob = obs then r else 0) buf)"

definition ball_reward :: "(nat \<times> nat \<times> real) list \<Rightarrow> nat \<Rightarrow> nat \<Rightarrow> real" where
  "ball_reward buf obs choice = sum_list (map (\<lambda>(ob, ch, r). if ob = obs \<and> ch = choice then r else 0) buf)"

text \<open>No addition that \<^verbatim>\<open>train\<close> makes for the buffer of the agent overflows.\<close>

definition train_finite :: "urn_agent \<Rightarrow> bool" where
  "train_finite self =
     list_all (\<lambda>obs.
        adds_finite (urn_sum_balls self ! obs) (obs_rewards (train_buf self) obs) \<and>
        list_all (\<lambda>c. adds_finite (urn_balls self ! obs ! c) (ball_rewards (train_buf self) obs c))
          [0..<num_choices self])
       [0..<num_obs self]"


subsection \<open>Creature\<close>

text \<open>
  \<open>bias_genes\<close> is the dictionary from the agent name to the address of a Gene object. The
  dictionary is never updated after it is built, so sharing the dictionary and sharing
  both of its Gene objects are the same thing. The quotient \<^verbatim>\<open>1 / lifespan_mean\<close> raises
  \<^verbatim>\<open>ZeroDivisionError\<close> in Python; when it overflows to an infinity, \<^verbatim>\<open>rng.geometric\<close>
  rejects it.
\<close>

record creature =
  bias_genes :: "role \<Rightarrow> nat"
  agents :: "role \<Rightarrow> urn_agent"
  fitness :: real
  lifespan :: int

definition Creature :: "gene list \<Rightarrow> (role \<Rightarrow> nat) \<Rightarrow> real \<Rightarrow> int \<Rightarrow> error + creature" where
  "Creature h new_genes mean lifespan_draw =
     (case UrnAgent h (new_genes Sender) of
        Inl err \<Rightarrow> Inl err
      | Inr sender_agent \<Rightarrow>
          (case UrnAgent h (new_genes Receiver) of
             Inl err \<Rightarrow> Inl err
           | Inr receiver_agent \<Rightarrow>
               (if mean = 0 then Inl ZeroDivisionError
                else if \<not> finite64 (fl (1 / mean)) then Inl ValueError
                else (case rng_geometric (fl (1 / mean)) lifespan_draw of
                        Inl err \<Rightarrow> Inl err
                      | Inr l \<Rightarrow>
                          Inr \<lparr>bias_genes = new_genes,
                               agents = (\<lambda>r. case r of Sender \<Rightarrow> sender_agent | Receiver \<Rightarrow> receiver_agent),
                               fitness = 0, lifespan = l\<rparr>))))"

text \<open>The Gene objects a creature holds, and a population in which no two creatures (and no
  two roles) hold the same Gene object.\<close>

definition gene_addresses :: "creature \<Rightarrow> nat list" where
  "gene_addresses c = [bias_genes c Sender, bias_genes c Receiver]"

definition no_shared_genes :: "creature list \<Rightarrow> bool" where
  "no_shared_genes pop = distinct (concat (map gene_addresses pop))"

subsection \<open>The configuration cell\<close>

text \<open>The global variables of the configuration cell and \<^verbatim>\<open>num_gen\<close>.\<close>

record config =
  c_num_states :: nat
  c_num_messages :: nat
  c_state_dist :: "real list"
  pop_size :: nat
  num_episodes_per_creature :: nat
  min_bias :: real
  max_bias :: real
  init_bias :: init_spec
  success_fitness :: "role \<Rightarrow> real"
  success_reward :: "role \<Rightarrow> real"
  tornament_size :: nat
  do_crossover :: bool
  mutation_rate :: real
  lifespan_mean :: real
  matching_bias :: string
  num_groups :: nat
  num_gen :: nat

text \<open>
  What the loop works on: the store of Gene objects, the list \<^verbatim>\<open>population\<close>, the global
  \<^verbatim>\<open>env\<close> and \<^verbatim>\<open>matching_dists\<close>. The logs are left out: appending to them and taking their
  means raises nothing.
\<close>

record world =
  genes :: "gene list"
  population :: "creature list"
  env_w :: env
  matching_dists :: "real list list"

text \<open>The outcomes of the draws of the configuration cell: the state drawn by the
  environment's constructor and, for every individual, the two initial genes and the lifespan.\<close>

record setup_draws =
  s_state :: nat
  s_init :: "nat \<Rightarrow> role \<Rightarrow> real ndarray"
  s_lifespan :: "nat \<Rightarrow> int"

text \<open>
  The matching distribution of sender \<open>s\<close> under \<^verbatim>\<open>'group'\<close>: the slice
  \<^verbatim>\<open>matching_dist[group::num_groups] = 1\<close>, normalised. The slice holds the index \<open>group\<close>
  itself, which is at most \<open>s\<close>, so the sum is not zero; it is a sum of ones and zeros and
  therefore exact. \<^verbatim>\<open>s % num_groups\<close> raises \<^verbatim>\<open>ZeroDivisionError\<close> for zero groups.
\<close>

definition matching_dist_group :: "nat \<Rightarrow> nat \<Rightarrow> nat \<Rightarrow> real list" where
  "matching_dist_group n_pop n_groups s =
     (let group = s mod n_groups;
          ones = map (\<lambda>j. if group \<le> j \<and> (j - group) mod n_groups = 0 then 1 else 0) [0..<n_pop]
      in map (\<lambda>x. fl (x / sum_list ones)) ones)"

definition make_matching_dists :: "config \<Rightarrow> error + real list list" where
  "make_matching_dists cfg =
     (if matching_bias cfg = ''uniform''
      then Inr (map (\<lambda>s. replicate (pop_size cfg) (fl (1 / real (pop_size cfg)))) [0..<pop_size cfg])
      else if matching_bias cfg = ''group''
      then (if 0 < pop_size cfg \<and> num_groups cfg = 0 then Inl ZeroDivisionError
            else Inr (map (matching_dist_group (pop_size cfg) (num_groups cfg)) [0..<pop_size cfg]))
      else Inr [])"

text \<open>The loop that builds the initial population: two new Gene objects and a Creature per
  individual.\<close>

fun init_population :: "config \<Rightarrow> setup_draws \<Rightarrow> nat list \<Rightarrow> gene list \<Rightarrow> creature list \<Rightarrow> error + (gene list \<times> creature list)" where
  "init_population cfg d [] h pop = Inr (h, pop)"
| "init_population cfg d (i # rest) h pop =
     (case Gene (c_num_states cfg, c_num_messages cfg) (min_bias cfg) (max_bias cfg) (init_bias cfg) (s_init d i Sender) of
        Inl err \<Rightarrow> Inl err
      | Inr sender_bias_gene \<Rightarrow>
          (case Gene (c_num_messages cfg, c_num_states cfg) (min_bias cfg) (max_bias cfg) (init_bias cfg) (s_init d i Receiver) of
             Inl err \<Rightarrow> Inl err
           | Inr receiver_bias_gene \<Rightarrow>
               (case Creature (h @ [sender_bias_gene, receiver_bias_gene])
                       (\<lambda>r. case r of Sender \<Rightarrow> length h | Receiver \<Rightarrow> Suc (length h))
                       (lifespan_mean cfg) (s_lifespan d i) of
                  Inl err \<Rightarrow> Inl err
                | Inr c \<Rightarrow> init_population cfg d rest (h @ [sender_bias_gene, receiver_bias_gene]) (pop @ [c]))))"

text \<open>The configuration cell, in its order: the environment, the matching distributions,
  the initial population. It contains no check of its own.\<close>

definition config_cell :: "config \<Rightarrow> setup_draws \<Rightarrow> error + world" where
  "config_cell cfg d =
     (case SignalingGameEnv (c_num_states cfg) (c_num_messages cfg) (c_state_dist cfg) (s_state d) of
        Inl err \<Rightarrow> Inl err
      | Inr e \<Rightarrow>
          (case make_matching_dists cfg of
             Inl err \<Rightarrow> Inl err
           | Inr md \<Rightarrow>
               (case init_population cfg d [0..<pop_size cfg] [] [] of
                  Inl err \<Rightarrow> Inl err
                | Inr (h, pop) \<Rightarrow> Inr \<lparr>genes = h, population = pop, env_w = e, matching_dists = md\<rparr>)))"

subsection \<open>One episode\<close>

text \<open>The outcomes of the draws of one episode: the sender's index, the receiver's index,
  the hidden state, and the action each agent draws.\<close>

record episode_draws =
  e_sender_idx :: nat
  e_receiver_idx :: nat
  e_state :: nat
  e_action :: "role \<Rightarrow> nat"

text \<open>
  The loop \<^verbatim>\<open>while not env.done\<close>. \<open>idx\<close> is the dictionary \<^verbatim>\<open>creatures\<close>: the position in the
  population of the creature that plays each role (the two roles of one creature are
  different agents, so a creature paired with itself is no aliasing). The agent is written
  back after \<^verbatim>\<open>store_buffer\<close>.
\<close>

function play :: "episode_draws \<Rightarrow> (role \<Rightarrow> nat) \<Rightarrow> env \<Rightarrow> creature list \<Rightarrow> error + (env \<times> creature list)" where
  "play d idx e pop =
     (if done_flag e then Inr (e, pop)
      else (case observe e (agent_selection e) of
              Inl err \<Rightarrow> Inl err
            | Inr obs \<Rightarrow>
                (case get_action (agents (pop ! idx (agent_selection e)) (agent_selection e)) obs
                        (e_action d (agent_selection e)) of
                   (Inl err, agent) \<Rightarrow> Inl err
                 | (Inr act, agent) \<Rightarrow>
                     (case step e act of
                        Inl err \<Rightarrow> Inl err
                      | Inr e' \<Rightarrow>
                          play d idx e'
                            (pop[idx (agent_selection e) :=
                               (pop ! idx (agent_selection e))
                                 \<lparr>agents := (agents (pop ! idx (agent_selection e)))
                                    (agent_selection e := store_buffer agent obs act)\<rparr>])))))"
  by pat_completeness auto
termination
  by (relation "measure (\<lambda>(d, idx, e, pop).
        if done_flag e then 0 else (case agent_selection e of Sender \<Rightarrow> 2 | Receiver \<Rightarrow> 1))")
    (auto simp: step_def split: role.splits if_splits)

text \<open>
  The read \<^verbatim>\<open>bias_genes[role].values[obs, choice]\<close> of the logging: the value is only
  logged, but the read raises when the entry (or the attribute it is indexed with) does
  not exist.
\<close>

definition choice_bias :: "gene list \<Rightarrow> creature \<Rightarrow> role \<Rightarrow> env \<Rightarrow> error + real" where
  "choice_bias h c r e =
     (case (case r of Sender \<Rightarrow> (Some (state e), message e) | Receiver \<Rightarrow> (message e, action e)) of
        (Some obs, Some choice) \<Rightarrow>
          (if length (values_g (h ! bias_genes c r)) \<le> obs \<or>
              length (values_g (h ! bias_genes c r) ! obs) \<le> choice
           then Inl IndexError
           else Inr (values_g (h ! bias_genes c r) ! obs ! choice))
      | _ \<Rightarrow> Inl AttributeError)"

text \<open>The body of \<^verbatim>\<open>for _agent_name in env.agent_names\<close> after an episode: fitness, reward,
  the logged bias, and \<^verbatim>\<open>train\<close>.\<close>

definition settle :: "config \<Rightarrow> gene list \<Rightarrow> env \<Rightarrow> (role \<Rightarrow> nat) \<Rightarrow> role \<Rightarrow> creature list \<Rightarrow> error + creature list" where
  "settle cfg h e idx r pop =
     (case round64 (fitness (pop ! idx r) + (if success e = Some True then success_fitness cfg r else 0)) of
        Inl err \<Rightarrow> Inl err
      | Inr fit \<Rightarrow>
          (case update_reward (agents (pop ! idx r) r) (if success e = Some True then success_reward cfg r else 0) of
             Inl err \<Rightarrow> Inl err
           | Inr agent \<Rightarrow>
               (case choice_bias h (pop ! idx r) r e of
                  Inl err \<Rightarrow> Inl err
                | Inr b \<Rightarrow>
                    (case train agent of
                       Inl err \<Rightarrow> Inl err
                     | Inr agent' \<Rightarrow>
                         Inr (pop[idx r := (pop ! idx r)\<lparr>fitness := fit,
                                agents := (agents (pop ! idx r))(r := agent')\<rparr>])))))"

definition run_episode :: "config \<Rightarrow> episode_draws \<Rightarrow> world \<Rightarrow> error + world" where
  "run_episode cfg d w =
     (case rng_integers_scalar 0 (int (pop_size cfg)) (e_sender_idx d) of
        Inl err \<Rightarrow> Inl err
      | Inr sender_idx \<Rightarrow>
          (if length (population w) \<le> sender_idx \<or> length (matching_dists w) \<le> sender_idx
           then Inl IndexError
           else (case rng_choice_p (length (population w)) (matching_dists w ! sender_idx) (e_receiver_idx d) of
                   Inl err \<Rightarrow> Inl err
                 | Inr receiver_idx \<Rightarrow>
                     (case reset (env_w w) (e_state d) of
                        Inl err \<Rightarrow> Inl err
                      | Inr e0 \<Rightarrow>
                          (case play d (\<lambda>r. case r of Sender \<Rightarrow> sender_idx | Receiver \<Rightarrow> receiver_idx)
                                  e0 (population w) of
                             Inl err \<Rightarrow> Inl err
                           | Inr (e1, pop1) \<Rightarrow>
                               (case settle cfg (genes w) e1
                                       (\<lambda>r. case r of Sender \<Rightarrow> sender_idx | Receiver \<Rightarrow> receiver_idx)
                                       Sender pop1 of
                                  Inl err \<Rightarrow> Inl err
                                | Inr pop2 \<Rightarrow>
                                    (case settle cfg (genes w) e1
                                            (\<lambda>r. case r of Sender \<Rightarrow> sender_idx | Receiver \<Rightarrow> receiver_idx)
                                            Receiver pop2 of
                                       Inl err \<Rightarrow> Inl err
                                     | Inr pop3 \<Rightarrow> Inr (w\<lparr>env_w := e1, population := pop3\<rparr>))))))))"

text \<open>The loop \<^verbatim>\<open>for episode in range(num_episodes_in_this_gen)\<close>.\<close>

fun run_episodes :: "config \<Rightarrow> (nat \<Rightarrow> episode_draws) \<Rightarrow> nat list \<Rightarrow> world \<Rightarrow> error + world" where
  "run_episodes cfg d [] w = Inr w"
| "run_episodes cfg d (episode # rest) w =
     (case run_episode cfg (d episode) w of
        Inl err \<Rightarrow> Inl err
      | Inr w' \<Rightarrow> run_episodes cfg d rest w')"

subsection \<open>The next generation\<close>

text \<open>The outcomes of the draws made when one slot is bred anew: the tournament, and per
  role the draws of \<^verbatim>\<open>crossover\<close> and \<^verbatim>\<open>mutate\<close>, then the lifespan.\<close>

record slot_draws =
  t_tournament :: "nat list"
  t_cross_init :: "role \<Rightarrow> real ndarray"
  t_cross_mask :: "role \<Rightarrow> int ndarray"
  t_mut_mask :: "role \<Rightarrow> real ndarray"
  t_mut_fresh :: "role \<Rightarrow> real ndarray"
  t_lifespan :: int

text \<open>\<^verbatim>\<open>max(tournament, key=lambda x: x.fitness)\<close>: the first creature of greatest fitness.\<close>

fun max_fitness :: "creature \<Rightarrow> creature list \<Rightarrow> creature" where
  "max_fitness best [] = best"
| "max_fitness best (c # cs) = (if fitness best < fitness c then max_fitness c cs else max_fitness best cs)"

text \<open>\<^verbatim>\<open>sorted(tournament, key=lambda x: x.fitness, reverse=True)\<close>: a stable sort by
  descending fitness.\<close>

definition sorted_by_fitness :: "creature list \<Rightarrow> creature list" where
  "sorted_by_fitness cs = sort_key (\<lambda>c. - fitness c) cs"

text \<open>
  The genes of the offspring. With crossover, two new Gene objects are made from the two
  winners. Without it, \<^verbatim>\<open>new_genes = winner.bias_genes\<close>: the winner's own dictionary and
  Gene objects.
\<close>

definition select_genes :: "config \<Rightarrow> slot_draws \<Rightarrow> creature list \<Rightarrow> gene list \<Rightarrow> error + (gene list \<times> (role \<Rightarrow> nat))" where
  "select_genes cfg d tournament h =
     (if do_crossover cfg
      then (if length (take 2 (sorted_by_fitness tournament)) < 2 then Inl IndexError
            else (case crossover_at h (bias_genes (sorted_by_fitness tournament ! 0) Sender)
                         (bias_genes (sorted_by_fitness tournament ! 1) Sender)
                         (t_cross_init d Sender) (t_cross_mask d Sender) of
                    Inl err \<Rightarrow> Inl err
                  | Inr (sender_gene, h1) \<Rightarrow>
                      (case crossover_at h1 (bias_genes (sorted_by_fitness tournament ! 0) Receiver)
                              (bias_genes (sorted_by_fitness tournament ! 1) Receiver)
                              (t_cross_init d Receiver) (t_cross_mask d Receiver) of
                         Inl err \<Rightarrow> Inl err
                       | Inr (receiver_gene, h2) \<Rightarrow>
                           Inr (h2, \<lambda>r. case r of Sender \<Rightarrow> sender_gene | Receiver \<Rightarrow> receiver_gene))))
      else (case tournament of
              [] \<Rightarrow> Inl ValueError
            | c # cs \<Rightarrow> Inr (h, bias_genes (max_fitness c cs))))"

text \<open>A slot whose creature has expired: tournament, genes, mutation in place, a new Creature.
  The tournament is drawn from the population before replacement.\<close>

definition breed :: "config \<Rightarrow> slot_draws \<Rightarrow> creature list \<Rightarrow> gene list \<Rightarrow> error + (gene list \<times> creature)" where
  "breed cfg d old h =
     (case rng_choice_sample (length old) (tornament_size cfg) (t_tournament d) of
        Inl err \<Rightarrow> Inl err
      | Inr picks \<Rightarrow>
          (case select_genes cfg d (map (\<lambda>i. old ! i) picks) h of
             Inl err \<Rightarrow> Inl err
           | Inr (h1, new_genes) \<Rightarrow>
               (case mutate_at h1 (new_genes Sender) (mutation_rate cfg) (t_mut_mask d Sender) (t_mut_fresh d Sender) of
                  Inl err \<Rightarrow> Inl err
                | Inr h2 \<Rightarrow>
                    (case mutate_at h2 (new_genes Receiver) (mutation_rate cfg) (t_mut_mask d Receiver) (t_mut_fresh d Receiver) of
                       Inl err \<Rightarrow> Inl err
                     | Inr h3 \<Rightarrow>
                         (case Creature h3 new_genes (lifespan_mean cfg) (t_lifespan d) of
                            Inl err \<Rightarrow> Inl err
                          | Inr c \<Rightarrow> Inr (h3, c))))))"

text \<open>
  The loop \<^verbatim>\<open>for i in range(pop_size)\<close> that fills \<^verbatim>\<open>new_population\<close>. \<open>old\<close> is the list
  \<^verbatim>\<open>population\<close>; the decrement of a carried-over creature's lifespan is seen in the new
  list (the tournament reads only \<^verbatim>\<open>fitness\<close> and \<^verbatim>\<open>bias_genes\<close> of the old one).
\<close>

fun replace_slots :: "config \<Rightarrow> (nat \<Rightarrow> slot_draws) \<Rightarrow> creature list \<Rightarrow> nat list \<Rightarrow> gene list \<Rightarrow> creature list \<Rightarrow> error + (gene list \<times> creature list)" where
  "replace_slots cfg d old [] h new_population = Inr (h, new_population)"
| "replace_slots cfg d old (i # rest) h new_population =
     (if length old \<le> i then Inl IndexError
      else if 1 < lifespan (old ! i)
      then replace_slots cfg d old rest h (new_population @ [(old ! i)\<lparr>lifespan := lifespan (old ! i) - 1\<rparr>])
      else (case breed cfg (d i) old h of
              Inl err \<Rightarrow> Inl err
            | Inr (h', c) \<Rightarrow> replace_slots cfg d old rest h' (new_population @ [c])))"

definition replacement :: "config \<Rightarrow> (nat \<Rightarrow> slot_draws) \<Rightarrow> world \<Rightarrow> error + world" where
  "replacement cfg d w =
     (case replace_slots cfg d (population w) [0..<pop_size cfg] (genes w) [] of
        Inl err \<Rightarrow> Inl err
      | Inr (h, new_population) \<Rightarrow> Inr (w\<lparr>genes := h, population := new_population\<rparr>))"

subsection \<open>The evolution loop\<close>

record generation_draws =
  g_episodes :: "nat \<Rightarrow> episode_draws"
  g_slots :: "nat \<Rightarrow> slot_draws"

text \<open>
  One pass of \<^verbatim>\<open>for gen in range(num_gen)\<close>: the episodes, the best creature (\<^verbatim>\<open>max\<close> of
  an empty population raises \<^verbatim>\<open>ValueError\<close>), the replacement. Printing the best creature
  with \<^verbatim>\<open>str_agent\<close> is left out: it changes nothing and reads, for every urn and ball of an
  agent, the ball count and the gene value, which exist when the gene's values have the
  gene's size.
\<close>

definition generation :: "config \<Rightarrow> generation_draws \<Rightarrow> world \<Rightarrow> error + world" where
  "generation cfg d w =
     (case run_episodes cfg (g_episodes d) [0..<num_episodes_per_creature cfg * pop_size cfg] w of
        Inl err \<Rightarrow> Inl err
      | Inr w1 \<Rightarrow>
          (if length (population w1) = 0 then Inl ValueError
           else replacement cfg (g_slots d) w1))"

fun evolution :: "config \<Rightarrow> (nat \<Rightarrow> generation_draws) \<Rightarrow> nat list \<Rightarrow> world \<Rightarrow> error + world" where
  "evolution cfg d [] w = Inr w"
| "evolution cfg d (gen # rest) w =
     (case generation cfg (d gen) w of
        Inl err \<Rightarrow> Inl err
      | Inr w' \<Rightarrow> evolution cfg d rest w')"

text \<open>The notebook from the configuration cell to the end of the loop.\<close>

definition notebook :: "config \<Rightarrow> setup_draws \<Rightarrow> (nat \<Rightarrow> generation_draws) \<Rightarrow> error + world" where
  "notebook cfg sd d =
     (case config_cell cfg sd of
        Inl err \<Rightarrow> Inl err
      | Inr w \<Rightarrow> evolution cfg d [0..<num_gen cfg] w)"

subsection \<open>Concrete genes and environment states\<close>

text \<open>Small inputs at which the theorems below are instantiated.\<close>

definition gene_lo :: gene where
  "gene_lo = \<lparr>size_g = (1, 2), min_val = 0, max_val = 30, init_values = Literal 0, values_g = [[0, 0]]\<rparr>"

definition gene_hi :: gene where
  "gene_hi = \<lparr>size_g = (1, 2), min_val = 0, max_val = 30, init_values = Literal 0, values_g = [[30, 30]]\<rparr>"

definition gene_outside :: gene where
  "gene_outside = \<lparr>size_g = (1, 2), min_val = 0, max_val = 30, init_values = Literal 50, values_g = [[50, 50]]\<rparr>"

definition env_fresh :: env where
  "env_fresh = \<lparr>num_states = 2, num_messages = 2, state_dist = [1/2, 1/2], state = 0, success = None,
       done_flag = False, agent_selection = Sender, message = None, action = None\<rparr>"

definition env_sent :: env where
  "env_sent = env_fresh\<lparr>message := Some 1, agent_selection := Receiver\<rparr>"

definition env_finished :: env where
  "env_finished = env_sent\<lparr>action := Some 0, success := Some True, done_flag := True\<rparr>"

definition env_second :: env where
  "env_second = env_finished\<lparr>state := 1, success := None, done_flag := False, agent_selection := Sender\<rparr>"

definition agent_one :: urn_agent where
  "agent_one = \<lparr>bias_gene = 0, num_obs = 1, num_choices = 2, urn_balls = [[1, 1]],
       urn_sum_balls = [2], train_buf = []\<rparr>"

text \<open>A gene built with a literal and inverted bounds, and one whose bounds are ordered but
  too far apart for their difference to be a finite double.\<close>

definition gene_inverted :: gene where
  "gene_inverted = \<lparr>size_g = (1, 2), min_val = 30, max_val = 0, init_values = Literal 0, values_g = [[0, 0]]\<rparr>"

definition gene_wide :: gene where
  "gene_wide = \<lparr>size_g = (1, 2), min_val = - (2 ^ 1023), max_val = 2 ^ 1023, init_values = Literal 0,
       values_g = [[0, 0]]\<rparr>"




subsection \<open>Concrete configurations and draws\<close>

text \<open>
  A configuration with inverted bounds and a tournament larger than the population, with the
  draws of its configuration cell, of its one episode and of the replacement; the world
  after the configuration cell and the world after the episode.
\<close>

definition cfg_unchecked :: config where
  "cfg_unchecked = \<lparr>c_num_states = 2, c_num_messages = 2, c_state_dist = [1/2, 1/2], pop_size = 1,
      num_episodes_per_creature = 1, min_bias = 30, max_bias = 0, init_bias = Literal 0,
      success_fitness = (\<lambda>r. case r of Sender \<Rightarrow> 1/8 | Receiver \<Rightarrow> 1),
      success_reward = (\<lambda>r. 1), tornament_size = 2, do_crossover = True, mutation_rate = 1/1024,
      lifespan_mean = 1, matching_bias = ''uniform'', num_groups = 5, num_gen = 1\<rparr>"

definition sd_unchecked :: setup_draws where
  "sd_unchecked = \<lparr>s_state = 0, s_init = (\<lambda>i r. []), s_lifespan = (\<lambda>i. 1)\<rparr>"

definition ed_unchecked :: "nat \<Rightarrow> episode_draws" where
  "ed_unchecked = (\<lambda>n. \<lparr>e_sender_idx = 0, e_receiver_idx = 0, e_state = 1,
      e_action = (\<lambda>r. case r of Sender \<Rightarrow> 0 | Receiver \<Rightarrow> 1)\<rparr>)"

definition td_unchecked :: "nat \<Rightarrow> slot_draws" where
  "td_unchecked = (\<lambda>i. \<lparr>t_tournament = [0, 0], t_cross_init = (\<lambda>r. []), t_cross_mask = (\<lambda>r. [[1, 0], [0, 1]]),
      t_mut_mask = (\<lambda>r. [[1/4, 3/4], [3/4, 3/4]]), t_mut_fresh = (\<lambda>r. [[7, 8], [9, 10]]), t_lifespan = 1\<rparr>)"

definition world_unchecked :: world where
  "world_unchecked = projr (config_cell cfg_unchecked sd_unchecked)"

definition world_played :: world where
  "world_played = projr (run_episodes cfg_unchecked ed_unchecked [0] world_unchecked)"

text \<open>
  A configuration without crossover, for one generation of two episodes: two creatures, of
  which the first expires after the generation and the second lives on. The first episode
  succeeds with the second creature as receiver, so the second creature wins the tournament
  over the whole population.
\<close>

definition cfg_clone :: config where
  "cfg_clone = \<lparr>c_num_states = 2, c_num_messages = 2, c_state_dist = [1/2, 1/2], pop_size = 2,
      num_episodes_per_creature = 1, min_bias = 0, max_bias = 30, init_bias = Literal 0,
      success_fitness = (\<lambda>r. case r of Sender \<Rightarrow> 1/8 | Receiver \<Rightarrow> 1),
      success_reward = (\<lambda>r. 1), tornament_size = 2, do_crossover = False, mutation_rate = 1/2,
      lifespan_mean = 2, matching_bias = ''uniform'', num_groups = 5, num_gen = 1\<rparr>"

definition sd_clone :: setup_draws where
  "sd_clone = \<lparr>s_state = 0, s_init = (\<lambda>i r. []), s_lifespan = (\<lambda>i. if i = 0 then 1 else 2)\<rparr>"

definition td_clone :: "nat \<Rightarrow> slot_draws" where
  "td_clone = (\<lambda>i. \<lparr>t_tournament = [0, 1], t_cross_init = (\<lambda>r. []), t_cross_mask = (\<lambda>r. [[1, 0], [0, 1]]),
      t_mut_mask = (\<lambda>r. [[1/4, 3/4], [3/4, 3/4]]), t_mut_fresh = (\<lambda>r. [[7, 8], [9, 10]]), t_lifespan = 3\<rparr>)"

definition gd_clone :: "nat \<Rightarrow> generation_draws" where
  "gd_clone = (\<lambda>gen. \<lparr>g_episodes = (\<lambda>n. if n = 0
        then \<lparr>e_sender_idx = 0, e_receiver_idx = 1, e_state = 0, e_action = (\<lambda>r. 0)\<rparr>
        else \<lparr>e_sender_idx = 1, e_receiver_idx = 0, e_state = 1,
               e_action = (\<lambda>r. case r of Sender \<Rightarrow> 1 | Receiver \<Rightarrow> 0)\<rparr>),
     g_slots = td_clone\<rparr>)"

definition gd_unchecked :: "nat \<Rightarrow> generation_draws" where
  "gd_unchecked = (\<lambda>gen. \<lparr>g_episodes = ed_unchecked, g_slots = td_unchecked\<rparr>)"

section \<open>Properties\<close>

subsection \<open>Floats\<close>

text \<open>The rounding to an integer is monotone, fixes the integers and moves a real by at most
  one half.\<close>

lemma rne_of_int [simp]: "rne (of_int k) = k"
  by (simp add: rne_def)

lemma rne_numeral [simp]: "rne (numeral n) = numeral n" "rne 0 = 0" "rne 1 = 1"
  using rne_of_int[of "numeral n"] rne_of_int[of 0] rne_of_int[of 1] by simp_all

lemma rne_mono: "s \<le> t \<Longrightarrow> rne s \<le> rne t"
proof -
  assume st: "s \<le> t"
  have lo: "\<lfloor>u\<rfloor> \<le> rne u" and hi: "rne u \<le> \<lfloor>u\<rfloor> + 1" for u
    by (simp_all add: rne_def)
  show ?thesis
  proof (cases "\<lfloor>s\<rfloor> = \<lfloor>t\<rfloor>")
    case True
    then show ?thesis using st by (auto simp: rne_def)
  next
    case False
    then have "\<lfloor>s\<rfloor> + 1 \<le> \<lfloor>t\<rfloor>" using floor_mono[OF st] by linarith
    then show ?thesis using hi[of s] lo[of t] by linarith
  qed
qed

lemma rne_nonneg: "0 \<le> t \<Longrightarrow> 0 \<le> rne t"
  using rne_mono[of 0 t] by simp

lemma rne_close: "\<bar>of_int (rne t) - t\<bar> \<le> 1/2"
  by (simp add: rne_def)

text \<open>The quantum of a real between two consecutive powers of two.\<close>

lemma quantum_pos: "0 < quantum x"
  by (simp add: quantum_def)

lemma quantum_minus [simp]: "quantum (- x) = quantum x"
  by (simp add: quantum_def expo_def)

lemma bitlen_between:
  assumes "(2::int) ^ (a + 52) \<le> N" and "N < 2 ^ (a + 53)"
  shows "bitlen N = int a + 53"
proof -
  have "bitlen N \<le> int a + 53"
    using assms(2) bitlen_le_iff_power[of N "int a + 53"] by (simp add: nat_add_distrib)
  moreover have "int a + 53 \<le> bitlen N"
    using assms(1) bitlen_ge_iff_power[of "int a + 53" N] by (simp add: nat_add_distrib add.commute)
  ultimately show ?thesis by linarith
qed

lemma quantum_eq:
  assumes "2 ^ (a + 52) \<le> \<bar>x\<bar> * 2 ^ 1074" and "\<bar>x\<bar> * 2 ^ 1074 < 2 ^ (a + 53)"
  shows "quantum x = 2 ^ a / 2 ^ 1074"
proof -
  define N where "N = \<lfloor>\<bar>x\<bar> * 2 ^ 1074\<rfloor>"
  have "(2::int) ^ (a + 52) \<le> N"
    unfolding N_def using assms(1) by (subst le_floor_iff) (simp only: of_int_power of_int_numeral)
  moreover have "N < 2 ^ (a + 53)"
    unfolding N_def using assms(2) by (subst floor_less_iff) (simp only: of_int_power of_int_numeral)
  ultimately have "bitlen N = int a + 53"
    by (rule bitlen_between)
  then have "nat (bitlen N - 53) = a" by simp
  then show ?thesis unfolding quantum_def expo_def N_def by (simp only:)
qed




text \<open>\<open>fl\<close> is odd, moves a real by at most half a quantum, and is monotone on the
  non-negative reals.\<close>

lemma fl_0 [simp]: "fl 0 = 0"
  by (simp add: fl_def)

lemma fl_minus: "fl (- x) = - fl x"
  by (simp add: fl_def sgn_minus)

lemma fl_of_nonneg: "0 \<le> x \<Longrightarrow> fl x = of_int (rne (x / quantum x)) * quantum x"
  by (cases "x = 0") (simp_all add: fl_def)

lemma fl_nonneg: "0 \<le> x \<Longrightarrow> 0 \<le> fl x"
  using quantum_pos[of x] by (simp add: fl_of_nonneg rne_nonneg)

lemma fl_close: "\<bar>fl x - x\<bar> \<le> quantum x / 2"
proof -
  have q: "0 < quantum x" by (rule quantum_pos)
  have nonneg: "\<bar>fl y - y\<bar> \<le> quantum y / 2" if y: "0 \<le> y" for y
  proof -
    have qy: "0 < quantum y" by (rule quantum_pos)
    have "fl y - y = (of_int (rne (y / quantum y)) - y / quantum y) * quantum y"
      using qy by (simp add: fl_of_nonneg[OF y] algebra_simps)
    then have "\<bar>fl y - y\<bar> = \<bar>of_int (rne (y / quantum y)) - y / quantum y\<bar> * quantum y"
      using qy by (simp add: abs_mult)
    also have "\<dots> \<le> 1/2 * quantum y"
      using rne_close[of "y / quantum y"] qy by (intro mult_right_mono) simp_all
    finally show ?thesis by simp
  qed
  show ?thesis
  proof (cases "0 \<le> x")
    case True
    then show ?thesis by (rule nonneg)
  next
    case False
    then have "\<bar>fl (- x) - (- x)\<bar> \<le> quantum (- x) / 2" by (intro nonneg) simp
    then show ?thesis by (simp add: fl_minus abs_minus_commute)
  qed
qed


text \<open>The doubles that the concrete runs below compute with.\<close>

lemma fl_small_values:
  "fl 1 = 1" "fl 2 = 2" "fl 3 = 3" "fl 8 = 8" "fl 9 = 9" "fl 30 = 30"
  "fl (1/2) = 1/2" "fl (1/8) = 1/8" "fl (9/8) = 9/8" "fl (- 30) = - 30"
  by (simp_all add: fl_def rne_def quantum_eq[of 1022] quantum_eq[of 1023] quantum_eq[of 1025]
      quantum_eq[of 1026] quantum_eq[of 1021] quantum_eq[of 1019])

lemma finite64_small_values:
  "finite64 0" "finite64 1" "finite64 2" "finite64 3" "finite64 8" "finite64 9" "finite64 30"
  "finite64 (1/2)" "finite64 (1/8)" "finite64 (9/8)" "finite64 (- 30)"
  by (simp_all add: finite64_def)

lemmas float_values = fl_small_values finite64_small_values round64_def

lemma fl_1_plus_ulp: "fl (1 + 1/2^52) = 1 + 1/2^52"
  by (simp add: fl_def rne_def quantum_eq[of 1022])

subsection \<open>Arrays\<close>

lemma has_shape_length: "has_shape sz xs \<Longrightarrow> length xs = fst sz"
  by (simp add: has_shape_def)

lemma has_shape_nth: "has_shape sz xs \<Longrightarrow> i < fst sz \<Longrightarrow> length (xs ! i) = snd sz"
  by (simp add: has_shape_def list_all_length)

lemma same_shape_lengths: "has_shape sz a \<Longrightarrow> has_shape sz b \<Longrightarrow> map length a = map length b"
  by (rule nth_equalityI) (simp_all add: has_shape_def list_all_length)

lemma where_row_length:
  "length x = length c \<Longrightarrow> length y = length c \<Longrightarrow> length (where_row c x y) = length c"
  by (simp add: where_row_def)

lemma where_row_nth:
  "length x = length c \<Longrightarrow> length y = length c \<Longrightarrow> j < length c \<Longrightarrow>
   where_row c x y ! j = (if c ! j then x ! j else y ! j)"
  by (simp add: where_row_def)

lemma where_row_all:
  "list_all P x \<Longrightarrow> list_all P y \<Longrightarrow> list_all P (where_row c x y)"
  by (auto simp: where_row_def list_all_length)

lemma where_row_none:
  "length x = length c \<Longrightarrow> length y = length c \<Longrightarrow> list_all (\<lambda>b. \<not> b) c \<Longrightarrow> where_row c x y = y"
  by (rule nth_equalityI) (simp_all add: where_row_length where_row_nth list_all_length)

lemma where_row_every:
  "length x = length c \<Longrightarrow> length y = length c \<Longrightarrow> list_all (\<lambda>b. b) c \<Longrightarrow> where_row c x y = x"
  by (rule nth_equalityI) (simp_all add: where_row_length where_row_nth list_all_length)

lemma np_where_rows:
  assumes "np_where c x y = Inr r"
  shows "length x = length c \<and> length y = length c \<and> length r = length c \<and>
     (\<forall>i<length c. length (x ! i) = length (c ! i) \<and> length (y ! i) = length (c ! i) \<and>
        r ! i = where_row (c ! i) (x ! i) (y ! i))"
proof -
  from assms have mx: "map length x = map length c" and my: "map length y = map length c"
    and r: "r = map (\<lambda>(cr, xr, yr). where_row cr xr yr) (zip c (zip x y))"
    by (simp_all add: np_where_def split: if_splits)
  have lx: "length x = length c" using mx by (rule map_eq_imp_length_eq)
  have ly: "length y = length c" using my by (rule map_eq_imp_length_eq)
  have "length (x ! i) = length (c ! i) \<and> length (y ! i) = length (c ! i)" if "i < length c" for i
    using that lx ly arg_cong[OF mx, of "\<lambda>l. l ! i"] arg_cong[OF my, of "\<lambda>l. l ! i"] by simp
  then show ?thesis using lx ly by (simp add: r)
qed

lemma np_where_none:
  assumes "np_where c x y = Inr r" and "all_entries (\<lambda>b. \<not> b) c"
  shows "r = y"
proof (rule nth_equalityI)
  show "length r = length y" using np_where_rows[OF assms(1)] by simp
next
  fix i assume "i < length r"
  then have i: "i < length c" using np_where_rows[OF assms(1)] by simp
  then have "list_all (\<lambda>b. \<not> b) (c ! i)" using assms(2) by (simp add: all_entries_def list_all_length)
  then show "r ! i = y ! i"
    using np_where_rows[OF assms(1)] i by (simp add: where_row_none)
qed

lemma np_where_every:
  assumes "np_where c x y = Inr r" and "all_entries (\<lambda>b. b) c"
  shows "r = x"
proof (rule nth_equalityI)
  show "length r = length x" using np_where_rows[OF assms(1)] by simp
next
  fix i assume "i < length r"
  then have i: "i < length c" using np_where_rows[OF assms(1)] by simp
  then have "list_all (\<lambda>b. b) (c ! i)" using assms(2) by (simp add: all_entries_def list_all_length)
  then show "r ! i = x ! i"
    using np_where_rows[OF assms(1)] i by (simp add: where_row_every)
qed

lemma np_where_all_entries:
  "np_where c x y = Inr r \<Longrightarrow> all_entries P x \<Longrightarrow> all_entries P y \<Longrightarrow> all_entries P r"
proof -
  assume r: "np_where c x y = Inr r" and x: "all_entries P x" and y: "all_entries P y"
  from r have eq: "r = map (\<lambda>(cr, xr, yr). where_row cr xr yr) (zip c (zip x y))"
    by (simp add: np_where_def split: if_splits)
  have "list_all P (r ! n)" if "n < length r" for n
  proof -
    from that have n: "n < length c" "n < length x" "n < length y" by (simp_all add: eq)
    then have "r ! n = where_row (c ! n) (x ! n) (y ! n)" by (simp add: eq)
    moreover have "list_all P (x ! n)" "list_all P (y ! n)"
      using x y n by (simp_all add: all_entries_def list_all_length)
    ultimately show ?thesis by (simp add: where_row_all)
  qed
  then show ?thesis by (simp add: all_entries_def list_all_length)
qed

lemma np_where_same_shape:
  assumes c: "has_shape sz c" and x: "has_shape sz x" and y: "has_shape sz y"
  shows "\<exists>r. np_where c x y = Inr r \<and> has_shape sz r \<and>
       (\<forall>i<fst sz. \<forall>j<snd sz. r ! i ! j = (if c ! i ! j then x ! i ! j else y ! i ! j))"
proof -
  let ?r = "map (\<lambda>(cr, xr, yr). where_row cr xr yr) (zip c (zip x y))"
  have eq: "np_where c x y = Inr ?r"
    using same_shape_lengths[OF x c] same_shape_lengths[OF y c] by (simp add: np_where_def)
  have len: "length c = fst sz" "length x = fst sz" "length y = fst sz"
    using c x y by (simp_all add: has_shape_def)
  have row: "?r ! i = where_row (c ! i) (x ! i) (y ! i)" if "i < fst sz" for i
    using that len by simp
  have rlen: "length (c ! i) = snd sz" "length (x ! i) = snd sz" "length (y ! i) = snd sz"
    if "i < fst sz" for i
    using that c x y by (simp_all add: has_shape_nth)
  have "has_shape sz ?r"
    using len by (simp add: has_shape_def list_all_length row rlen where_row_length del: nth_map nth_zip)
  moreover have "\<forall>i<fst sz. \<forall>j<snd sz. ?r ! i ! j = (if c ! i ! j then x ! i ! j else y ! i ! j)"
    by (simp add: row rlen where_row_nth del: nth_map nth_zip)
  ultimately show ?thesis using eq by blast
qed

lemma has_shape_map: "has_shape sz u \<Longrightarrow> has_shape sz (map (map f) u)"
  by (simp add: has_shape_def list_all_length)

lemma map_map_nth:
  "has_shape sz u \<Longrightarrow> i < fst sz \<Longrightarrow> j < snd sz \<Longrightarrow> map (map f) u ! i ! j = f (u ! i ! j)"
  by (simp add: has_shape_def list_all_length)

lemma all_entries_map: "all_entries P (map (map f) u) = all_entries (\<lambda>x. P (f x)) u"
  by (simp add: all_entries_def list_all_iff)

lemma all_entries_nth:
  "has_shape sz u \<Longrightarrow> all_entries P u \<Longrightarrow> i < fst sz \<Longrightarrow> j < snd sz \<Longrightarrow> P (u ! i ! j)"
  by (simp add: has_shape_def all_entries_def list_all_length)

lemma all_entries_mono:
  "all_entries P u \<Longrightarrow> (\<And>x. P x \<Longrightarrow> Q x) \<Longrightarrow> all_entries Q u"
  by (auto simp: all_entries_def list_all_iff)

lemma np_full_shape: "has_shape sz (np_full sz v)"
  by (simp add: has_shape_def np_full_def list_all_length)

lemma np_full_entries: "P v \<Longrightarrow> all_entries P (np_full sz v)"
  by (simp add: all_entries_def np_full_def list_all_length)

subsection \<open>The calls to the random generator\<close>

text \<open>What a returning call of \<^verbatim>\<open>rng.uniform\<close> tells about its arguments and its outcome.\<close>

lemma rng_uniform_Inr:
  "rng_uniform lo hi sz d = Inr r \<Longrightarrow>
     r = d \<and> lo \<le> hi \<and> finite64 (fl (hi - lo)) \<and> uniform_outcome lo hi sz d"
  by (auto simp: rng_uniform_def split: if_splits)

lemma rng_uniform_returns:
  "lo \<le> hi \<Longrightarrow> finite64 (fl (hi - lo)) \<Longrightarrow> uniform_outcome lo hi sz d \<Longrightarrow> rng_uniform lo hi sz d = Inr d"
  by (simp add: rng_uniform_def)

lemma rng_uniform_unit:
  "rng_uniform 0 1 sz d = (if uniform_outcome 0 1 sz d then Inr d else Inl Unmodelled)"
  by (simp add: rng_uniform_def float_values)

lemma uniform_in_bounds:
  "uniform_outcome lo hi sz d \<Longrightarrow> all_entries (\<lambda>x. lo \<le> x \<and> x \<le> hi) d"
  by (auto simp: uniform_outcome_def in_uniform_def elim!: all_entries_mono split: if_splits)

lemma uniform_unit_range:
  "uniform_outcome 0 1 sz d \<Longrightarrow> all_entries (\<lambda>x. 0 \<le> x \<and> x < 1) d"
  by (auto simp: uniform_outcome_def in_uniform_def elim!: all_entries_mono)

subsection \<open>Gene\<close>

text \<open>What a returning call of \<^verbatim>\<open>mutate\<close> tells: both draws are outcomes of their calls, and
  the new values are chosen by the mask.\<close>

lemma mutate_Inr:
  assumes "mutate g rate u f = Inr g'"
  shows "uniform_outcome 0 1 (size_g g) u \<and>
     uniform_outcome (min_val g) (max_val g) (size_g g) f \<and>
     min_val g \<le> max_val g \<and> finite64 (fl (max_val g - min_val g)) \<and>
     (\<exists>vs. np_where (map (map (\<lambda>x. x < rate)) u) f (values_g g) = Inr vs \<and> g' = g\<lparr>values_g := vs\<rparr>)"
proof -
  from assms obtain u' where u': "rng_uniform 0 1 (size_g g) u = Inr u'"
    by (auto simp: mutate_def split: sum.splits)
  then have u: "u' = u" "uniform_outcome 0 1 (size_g g) u"
    using rng_uniform_Inr[OF u'] by simp_all
  from assms u' obtain f' where f': "rng_uniform (min_val g) (max_val g) (size_g g) f = Inr f'"
    by (auto simp: mutate_def split: sum.splits)
  note f = rng_uniform_Inr[OF f']
  from assms u' f' u(1) f have "\<exists>vs. np_where (map (map (\<lambda>x. x < rate)) u) f (values_g g) = Inr vs \<and> g' = g\<lparr>values_g := vs\<rparr>"
    by (auto simp: mutate_def split: sum.splits)
  then show ?thesis using u(2) f by simp
qed

lemma mutate_returns:
  assumes shape: "has_shape (size_g g) (values_g g)"
      and bounds: "min_val g \<le> max_val g"
      and finite: "finite64 (fl (max_val g - min_val g))"
      and u: "uniform_outcome 0 1 (size_g g) u"
      and f: "uniform_outcome (min_val g) (max_val g) (size_g g) f"
  shows "\<exists>vs. mutate g rate u f = Inr (g\<lparr>values_g := vs\<rparr>) \<and> has_shape (size_g g) vs \<and>
     (\<forall>i<fst (size_g g). \<forall>j<snd (size_g g).
        vs ! i ! j = (if u ! i ! j < rate then f ! i ! j else values_g g ! i ! j))"
proof -
  have us: "has_shape (size_g g) u" and fs: "has_shape (size_g g) f"
    using u f by (simp_all add: uniform_outcome_def)
  obtain r where r: "np_where (map (map (\<lambda>x. x < rate)) u) f (values_g g) = Inr r"
      "has_shape (size_g g) r"
      "\<forall>i<fst (size_g g). \<forall>j<snd (size_g g).
         r ! i ! j = (if map (map (\<lambda>x. x < rate)) u ! i ! j then f ! i ! j else values_g g ! i ! j)"
    using np_where_same_shape[OF has_shape_map[OF us] fs shape] by blast
  have "mutate g rate u f = Inr (g\<lparr>values_g := r\<rparr>)"
    using r(1) u rng_uniform_returns[OF bounds finite f] by (simp add: mutate_def rng_uniform_unit)
  moreover have "\<forall>i<fst (size_g g). \<forall>j<snd (size_g g).
        r ! i ! j = (if u ! i ! j < rate then f ! i ! j else values_g g ! i ! j)"
    using r(3) by (simp add: map_map_nth[OF us])
  ultimately show ?thesis using r(2) by blast
qed

text \<open>
  C9 as stated fails: not every gene can be mutated. The constructor builds a gene with
  inverted bounds from a literal, and \<^verbatim>\<open>mutate\<close> raises \<^verbatim>\<open>ValueError\<close> on it at rate 0 and at
  rate 1; on a gene whose bounds are \<open>- 2 ^ 1023\<close> and \<open>2 ^ 1023\<close> it raises
  \<^verbatim>\<open>OverflowError\<close>. No value is replaced.
\<close>

theorem mutate_raises_on_bad_bounds:
  "Gene (1, 2) 30 0 (Literal 0) [] = Inr gene_inverted \<and>
   mutate gene_inverted 0 [[0, 1/2]] [[0, 0]] = Inl ValueError \<and>
   mutate gene_inverted 1 [[0, 1/2]] [[0, 0]] = Inl ValueError \<and>
   Gene (1, 2) (- (2 ^ 1023)) (2 ^ 1023) (Literal 0) [] = Inr gene_wide \<and>
   mutate gene_wide 1 [[0, 1/2]] [[0, 0]] = Inl OverflowError"
proof -
  have wide: "\<not> finite64 (fl (2 ^ 1023 - - (2 ^ 1023)))"
    by (simp add: finite64_def fl_def rne_def quantum_eq[of 2046])
  have unit: "uniform_outcome 0 1 (1, 2) [[0, 1/2]]"
    by (simp add: uniform_outcome_def has_shape_def all_entries_def in_uniform_def)
  have "mutate gene_inverted rate [[0, 1/2]] [[0, 0]] = Inl ValueError" for rate
    using unit by (simp add: mutate_def gene_inverted_def rng_uniform_unit rng_uniform_def float_values)
  moreover have "mutate gene_wide 1 [[0, 1/2]] [[0, 0]] = Inl OverflowError"
    using unit wide by (simp add: mutate_def gene_wide_def rng_uniform_unit rng_uniform_def)
  moreover have "Gene (1, 2) 30 0 (Literal 0) [] = Inr gene_inverted"
      "Gene (1, 2) (- (2 ^ 1023)) (2 ^ 1023) (Literal 0) [] = Inr gene_wide"
    by (simp_all add: Gene_def gene_inverted_def gene_wide_def np_full_def numeral_2_eq_2)
  ultimately show ?thesis by simp
qed

text \<open>
  C9, as amended. Whenever \<^verbatim>\<open>mutate(0)\<close> returns, it returns the gene with every value
  unchanged, and whenever \<^verbatim>\<open>mutate(1)\<close> returns, every value has been replaced by the fresh
  draw, which lies within the bounds; this holds for every outcome of the two draws. The
  call returns when the values have the gene's size, the bounds are ordered and their
  difference is a finite double. At every rate it raises \<^verbatim>\<open>OverflowError\<close> when the
  difference of the bounds is not finite and \<^verbatim>\<open>ValueError\<close> when the bounds are inverted.
\<close>

theorem mutate_rate_zero_and_one:
  "(mutate g 0 u f = Inr g0 \<longrightarrow> g0 = g) \<and>
   (mutate g 1 u f = Inr g1 \<longrightarrow> g1 = g\<lparr>values_g := f\<rparr> \<and> in_bounds g1) \<and>
   (has_shape (size_g g) (values_g g) \<and> min_val g \<le> max_val g \<and>
    finite64 (fl (max_val g - min_val g)) \<and> uniform_outcome 0 1 (size_g g) u \<and>
    uniform_outcome (min_val g) (max_val g) (size_g g) f \<longrightarrow>
      mutate g 0 u f = Inr g \<and> mutate g 1 u f = Inr (g\<lparr>values_g := f\<rparr>)) \<and>
   (uniform_outcome 0 1 (size_g g) u \<and> \<not> finite64 (fl (max_val g - min_val g)) \<longrightarrow>
      mutate g rate u f = Inl OverflowError) \<and>
   (uniform_outcome 0 1 (size_g g) u \<and> finite64 (fl (max_val g - min_val g)) \<and>
    max_val g < min_val g \<longrightarrow>
      mutate g rate u f = Inl ValueError)"
proof (intro conjI impI)
  assume m: "mutate g 0 u f = Inr g0"
  from mutate_Inr[OF m] obtain vs where u: "uniform_outcome 0 1 (size_g g) u"
    and vs: "np_where (map (map (\<lambda>x. x < 0)) u) f (values_g g) = Inr vs" and g0: "g0 = g\<lparr>values_g := vs\<rparr>"
    by blast
  have "all_entries (\<lambda>b. \<not> b) (map (map (\<lambda>x. x < 0)) u)"
    unfolding all_entries_map by (rule all_entries_mono[OF uniform_unit_range[OF u]]) simp
  then have "vs = values_g g" by (rule np_where_none[OF vs])
  then show "g0 = g" by (simp add: g0)
next
  assume m: "mutate g 1 u f = Inr g1"
  from mutate_Inr[OF m] obtain vs where u: "uniform_outcome 0 1 (size_g g) u"
    and f: "uniform_outcome (min_val g) (max_val g) (size_g g) f"
    and vs: "np_where (map (map (\<lambda>x. x < 1)) u) f (values_g g) = Inr vs" and g1: "g1 = g\<lparr>values_g := vs\<rparr>"
    by blast
  have "all_entries (\<lambda>b. b) (map (map (\<lambda>x. x < 1)) u)"
    unfolding all_entries_map by (rule all_entries_mono[OF uniform_unit_range[OF u]]) simp
  then have "vs = f" by (rule np_where_every[OF vs])
  then show "g1 = g\<lparr>values_g := f\<rparr>" "in_bounds g1"
    using uniform_in_bounds[OF f] by (simp_all add: g1 in_bounds_def)
next
  assume a: "has_shape (size_g g) (values_g g) \<and> min_val g \<le> max_val g \<and>
    finite64 (fl (max_val g - min_val g)) \<and> uniform_outcome 0 1 (size_g g) u \<and>
    uniform_outcome (min_val g) (max_val g) (size_g g) f"
  then have u: "uniform_outcome 0 1 (size_g g) u" by simp
  obtain v0 where v0: "mutate g 0 u f = Inr (g\<lparr>values_g := v0\<rparr>)"
    using mutate_returns[of g u f 0] a by blast
  obtain v1 where v1: "mutate g 1 u f = Inr (g\<lparr>values_g := v1\<rparr>)"
    using mutate_returns[of g u f 1] a by blast
  from mutate_Inr[OF v0] obtain vs where
    vs: "np_where (map (map (\<lambda>x. x < 0)) u) f (values_g g) = Inr vs" and e0: "g\<lparr>values_g := v0\<rparr> = g\<lparr>values_g := vs\<rparr>"
    by blast
  have "all_entries (\<lambda>b. \<not> b) (map (map (\<lambda>x. x < 0)) u)"
    unfolding all_entries_map by (rule all_entries_mono[OF uniform_unit_range[OF u]]) simp
  then have "vs = values_g g" by (rule np_where_none[OF vs])
  then have zero: "mutate g 0 u f = Inr g" using v0 e0 by simp
  from mutate_Inr[OF v1] obtain ws where
    ws: "np_where (map (map (\<lambda>x. x < 1)) u) f (values_g g) = Inr ws" and e1: "g\<lparr>values_g := v1\<rparr> = g\<lparr>values_g := ws\<rparr>"
    by blast
  have "all_entries (\<lambda>b. b) (map (map (\<lambda>x. x < 1)) u)"
    unfolding all_entries_map by (rule all_entries_mono[OF uniform_unit_range[OF u]]) simp
  then have "ws = f" by (rule np_where_every[OF ws])
  then have one: "mutate g 1 u f = Inr (g\<lparr>values_g := f\<rparr>)" using v1 e1 by simp
  show "mutate g 0 u f = Inr g" by (rule zero)
  show "mutate g 1 u f = Inr (g\<lparr>values_g := f\<rparr>)" by (rule one)
next
  assume "uniform_outcome 0 1 (size_g g) u \<and> \<not> finite64 (fl (max_val g - min_val g))"
  then show "mutate g rate u f = Inl OverflowError"
    by (simp add: mutate_def rng_uniform_def float_values)
next
  assume "uniform_outcome 0 1 (size_g g) u \<and> finite64 (fl (max_val g - min_val g)) \<and>
    max_val g < min_val g"
  then show "mutate g rate u f = Inl ValueError"
    by (simp add: mutate_def rng_uniform_def float_values)
qed

text \<open>C9 (amended) at the gene \<open>gene_lo\<close>.\<close>

theorem mutate_rate_zero_and_one_witness:
  "mutate gene_lo 0 [[0, 1/2]] [[7, 29]] = Inr gene_lo \<and>
   mutate gene_lo 1 [[0, 1/2]] [[7, 29]] = Inr (gene_lo\<lparr>values_g := [[7, 29]]\<rparr>) \<and>
   in_bounds (gene_lo\<lparr>values_g := [[7, 29]]\<rparr>) \<and>
   mutate gene_wide (1/2) [[0, 1/2]] [[7, 29]] = Inl OverflowError \<and>
   mutate gene_inverted (1/2) [[0, 1/2]] [[7, 29]] = Inl ValueError"
proof -
  have wide: "\<not> finite64 (fl (2 ^ 1023 - - (2 ^ 1023)))"
    by (simp add: finite64_def fl_def rne_def quantum_eq[of 2046])
  have a: "mutate gene_lo 0 [[0, 1/2]] [[7, 29]] = Inr gene_lo \<and>
      mutate gene_lo 1 [[0, 1/2]] [[7, 29]] = Inr (gene_lo\<lparr>values_g := [[7, 29]]\<rparr>) \<and>
      in_bounds (gene_lo\<lparr>values_g := [[7, 29]]\<rparr>)"
    using mutate_rate_zero_and_one[where g = gene_lo and u = "[[0, 1/2]]" and f = "[[7, 29]]"
        and ?g0.0 = gene_lo and ?g1.0 = "gene_lo\<lparr>values_g := [[7, 29]]\<rparr>"]
    by (simp add: gene_lo_def uniform_outcome_def has_shape_def all_entries_def in_uniform_def float_values)
  have b: "mutate gene_wide (1/2) [[0, 1/2]] [[7, 29]] = Inl OverflowError"
    using mutate_rate_zero_and_one[where g = gene_wide and u = "[[0, 1/2]]" and f = "[[7, 29]]"
        and rate = "1/2"] wide
    by (simp add: gene_wide_def uniform_outcome_def has_shape_def all_entries_def in_uniform_def)
  have c: "mutate gene_inverted (1/2) [[0, 1/2]] [[7, 29]] = Inl ValueError"
    using mutate_rate_zero_and_one[where g = gene_inverted and u = "[[0, 1/2]]" and f = "[[7, 29]]"
        and rate = "1/2"]
    by (simp add: gene_inverted_def uniform_outcome_def has_shape_def all_entries_def in_uniform_def
        float_values)
  show ?thesis using a b c by simp
qed

lemma Gene_fields:
  "Gene sz lo hi init d = Inr g0 \<Longrightarrow>
     size_g g0 = sz \<and> min_val g0 = lo \<and> max_val g0 = hi \<and> init_values g0 = init"
  by (auto simp: Gene_def split: init_spec.splits sum.splits)

text \<open>A gene that the constructor has built can be built again by the constructor call with
  which \<^verbatim>\<open>crossover\<close> begins.\<close>

lemma constructed_gene_is_rebuilt:
  assumes "Gene sz lo hi init d0 = Inr g" and "init = Random \<Longrightarrow> uniform_outcome lo hi sz d"
  shows "\<exists>g0. Gene (size_g g) (min_val g) (max_val g) (init_values g) d = Inr g0"
proof (cases init)
  case Random
  with assms(1) obtain vs where "rng_uniform lo hi sz d0 = Inr vs"
    by (auto simp: Gene_def split: sum.splits)
  from rng_uniform_Inr[OF this] have "rng_uniform lo hi sz d = Inr d"
    using assms(2) Random by (simp add: rng_uniform_returns)
  then show ?thesis using Gene_fields[OF assms(1)] Random by (simp add: Gene_def)
next
  case (Literal v)
  then show ?thesis using Gene_fields[OF assms(1)] by (simp add: Gene_def)
qed

lemma crossover_result:
  assumes shape: "has_shape (size_g self) (values_g self)"
      and other: "has_shape (size_g self) (values_g other)"
      and ctor: "Gene (size_g self) (min_val self) (max_val self) (init_values self) d = Inr g0"
      and m: "integers_outcome 0 2 (size_g self) m"
  shows "\<exists>child. crossover self other d m = Inr child \<and>
     size_g child = size_g self \<and> min_val child = min_val self \<and> max_val child = max_val self \<and>
     init_values child = init_values self \<and> has_shape (size_g self) (values_g child) \<and>
     (\<forall>i<fst (size_g self). \<forall>j<snd (size_g self).
        values_g child ! i ! j = (if m ! i ! j \<noteq> 0 then values_g self ! i ! j else values_g other ! i ! j))"
proof -
  have ms: "has_shape (size_g self) m" using m by (simp add: integers_outcome_def)
  obtain r where r: "np_where (map (map (\<lambda>m. m \<noteq> 0)) m) (values_g self) (values_g other) = Inr r"
      "has_shape (size_g self) r"
      "\<forall>i<fst (size_g self). \<forall>j<snd (size_g self).
         r ! i ! j = (if map (map (\<lambda>m. m \<noteq> 0)) m ! i ! j then values_g self ! i ! j else values_g other ! i ! j)"
    using np_where_same_shape[OF has_shape_map[OF ms] shape other] by blast
  have "crossover self other d m = Inr (g0\<lparr>values_g := r\<rparr>)"
    using ctor r(1) m by (simp add: crossover_def rng_integers_def)
  moreover have "\<forall>i<fst (size_g self). \<forall>j<snd (size_g self).
        r ! i ! j = (if m ! i ! j \<noteq> 0 then values_g self ! i ! j else values_g other ! i ! j)"
    using r(3) by (simp add: map_map_nth[OF ms])
  ultimately show ?thesis using r(2) Gene_fields[OF ctor] by simp
qed

lemma crossover_in_bounds:
  assumes "crossover self other d m = Inr child" "in_bounds self"
      and "all_entries (\<lambda>x. min_val self \<le> x \<and> x \<le> max_val self) (values_g other)"
  shows "in_bounds child"
proof -
  from assms(1) obtain g0 r where g0: "Gene (size_g self) (min_val self) (max_val self) (init_values self) d = Inr g0"
    and r: "np_where (map (map (\<lambda>m. m \<noteq> 0)) m) (values_g self) (values_g other) = Inr r"
    and child: "child = g0\<lparr>values_g := r\<rparr>"
    by (auto simp: crossover_def rng_integers_def split: sum.splits if_splits)
  have "all_entries (\<lambda>x. min_val self \<le> x \<and> x \<le> max_val self) r"
    using np_where_all_entries[OF r] assms(2,3) by (simp add: in_bounds_def)
  then show ?thesis using Gene_fields[OF g0] by (simp add: in_bounds_def child)
qed

lemma mutate_in_bounds:
  assumes "mutate g rate u f = Inr g'" "in_bounds g"
  shows "in_bounds g'"
proof -
  from mutate_Inr[OF assms(1)] obtain r where f: "uniform_outcome (min_val g) (max_val g) (size_g g) f"
    and r: "np_where (map (map (\<lambda>x. x < rate)) u) f (values_g g) = Inr r"
    and g': "g' = g\<lparr>values_g := r\<rparr>"
    by blast
  have "all_entries (\<lambda>x. min_val g \<le> x \<and> x \<le> max_val g) r"
    using np_where_all_entries[OF r] uniform_in_bounds[OF f] assms(2) by (simp add: in_bounds_def)
  then show ?thesis by (simp add: in_bounds_def g')
qed

text \<open>
  C1, as amended. The constructor with \<^verbatim>\<open>'random'\<close> returns when, and only when, the bounds
  are ordered and their difference is a finite double, and whenever it returns every value
  lies in \<open>[min_val, max_val]\<close>. With a literal it always returns, and the values lie in the
  interval when the literal does. \<^verbatim>\<open>crossover\<close> of an in-bounds gene with a gene whose values
  lie in the same interval, and \<^verbatim>\<open>mutate\<close> of an in-bounds gene at any rate, give an in-bounds
  gene whenever they return.
\<close>

theorem gene_values_stay_in_bounds:
  "(lo \<le> hi \<and> finite64 (fl (hi - lo)) \<and> uniform_outcome lo hi sz d \<longrightarrow>
      (\<exists>g. Gene sz lo hi Random d = Inr g)) \<and>
   (Gene sz lo hi Random d1 = Inr g1 \<longrightarrow> lo \<le> hi \<and> finite64 (fl (hi - lo)) \<and> in_bounds g1) \<and>
   (lo \<le> v \<and> v \<le> hi \<longrightarrow> (\<exists>g. Gene sz lo hi (Literal v) d2 = Inr g \<and> in_bounds g)) \<and>
   (in_bounds self \<and> all_entries (\<lambda>x. min_val self \<le> x \<and> x \<le> max_val self) (values_g other) \<and>
      crossover self other d3 m = Inr child \<longrightarrow> in_bounds child) \<and>
   (in_bounds self \<and> mutate self rate u f = Inr mutated \<longrightarrow> in_bounds mutated)"
proof (intro conjI impI)
  assume "lo \<le> hi \<and> finite64 (fl (hi - lo)) \<and> uniform_outcome lo hi sz d"
  then show "\<exists>g. Gene sz lo hi Random d = Inr g"
    by (simp add: Gene_def rng_uniform_returns)
next
  assume g1: "Gene sz lo hi Random d1 = Inr g1"
  then obtain vs where vs: "rng_uniform lo hi sz d1 = Inr vs"
    and eq: "g1 = \<lparr>size_g = sz, min_val = lo, max_val = hi, init_values = Random, values_g = vs\<rparr>"
    by (auto simp: Gene_def split: sum.splits)
  from rng_uniform_Inr[OF vs] have "all_entries (\<lambda>x. lo \<le> x \<and> x \<le> hi) vs"
    using uniform_in_bounds[of lo hi sz d1] by simp
  then show "in_bounds g1" by (simp add: eq in_bounds_def)
  show "lo \<le> hi" "finite64 (fl (hi - lo))" using rng_uniform_Inr[OF vs] by simp_all
next
  assume "lo \<le> v \<and> v \<le> hi"
  then show "\<exists>g. Gene sz lo hi (Literal v) d2 = Inr g \<and> in_bounds g"
    by (simp add: Gene_def in_bounds_def np_full_entries)
next
  assume "in_bounds self \<and> all_entries (\<lambda>x. min_val self \<le> x \<and> x \<le> max_val self) (values_g other) \<and>
      crossover self other d3 m = Inr child"
  then show "in_bounds child" using crossover_in_bounds by blast
next
  assume "in_bounds self \<and> mutate self rate u f = Inr mutated"
  then show "in_bounds mutated" using mutate_in_bounds by blast
qed

text \<open>
  C1 as stated fails: the constructor does not compare a literal with the bounds.
  \<^verbatim>\<open>Gene((1, 2), 0, 30, 50)\<close> holds the value 50 twice.
\<close>

theorem gene_literal_out_of_bounds:
  "Gene (1, 2) 0 30 (Literal 50) [] = Inr gene_outside \<and> \<not> in_bounds gene_outside"
  by (simp add: Gene_def gene_outside_def np_full_def in_bounds_def all_entries_def numeral_2_eq_2)

text \<open>C1 (amended) at concrete genes and draws.\<close>

theorem gene_values_stay_in_bounds_witness:
  "Gene (1, 2) 0 30 Random [[3, 29]] =
     Inr \<lparr>size_g = (1, 2), min_val = 0, max_val = 30, init_values = Random, values_g = [[3, 29]]\<rparr> \<and>
   in_bounds \<lparr>size_g = (1, 2), min_val = 0, max_val = 30, init_values = Random, values_g = [[3, 29]]\<rparr> \<and>
   (\<exists>g. Gene (1, 2) 0 30 (Literal 0) [] = Inr g \<and> in_bounds g) \<and>
   crossover gene_lo gene_hi [] [[1, 0]] = Inr (gene_lo\<lparr>values_g := [[0, 30]]\<rparr>) \<and>
   in_bounds (gene_lo\<lparr>values_g := [[0, 30]]\<rparr>) \<and>
   mutate gene_lo (1/2) [[0, 3/4]] [[7, 29]] = Inr (gene_lo\<lparr>values_g := [[7, 0]]\<rparr>) \<and>
   in_bounds (gene_lo\<lparr>values_g := [[7, 0]]\<rparr>)"
proof -
  have o: "uniform_outcome 0 30 (1, 2) [[3, 29]]" "uniform_outcome 0 30 (1, 2) [[7, 29]]"
      "uniform_outcome 0 1 (1, 2) [[0, 3/4]]" "integers_outcome 0 2 (1, 2) [[1, 0]]"
    by (simp_all add: uniform_outcome_def integers_outcome_def has_shape_def all_entries_def in_uniform_def)
  have g: "Gene (1, 2) 0 30 Random [[3, 29]] =
     Inr \<lparr>size_g = (1, 2), min_val = 0, max_val = 30, init_values = Random, values_g = [[3, 29]]\<rparr>"
    using o by (simp add: Gene_def rng_uniform_def float_values)
  have c: "crossover gene_lo gene_hi [] [[1, 0]] = Inr (gene_lo\<lparr>values_g := [[0, 30]]\<rparr>)"
    using o by (simp add: crossover_def Gene_def gene_lo_def gene_hi_def rng_integers_def np_where_def where_row_def np_full_def)
  have m: "mutate gene_lo (1/2) [[0, 3/4]] [[7, 29]] = Inr (gene_lo\<lparr>values_g := [[7, 0]]\<rparr>)"
    using o by (simp add: mutate_def gene_lo_def rng_uniform_unit rng_uniform_def float_values np_where_def where_row_def)
  have b: "in_bounds gene_lo" "all_entries (\<lambda>x. min_val gene_lo \<le> x \<and> x \<le> max_val gene_lo) (values_g gene_hi)"
    by (simp_all add: in_bounds_def all_entries_def gene_lo_def gene_hi_def)
  show ?thesis
    using gene_values_stay_in_bounds[of 0 30 "(1, 2)" "[[3, 29]]" "[[3, 29]]"
        "\<lparr>size_g = (1, 2), min_val = 0, max_val = 30, init_values = Random, values_g = [[3, 29]]\<rparr>"
        0 "[]" gene_lo gene_hi "[]" "[[1, 0]]"
        "gene_lo\<lparr>values_g := [[0, 30]]\<rparr>" "1/2" "[[0, 3/4]]" "[[7, 29]]" "gene_lo\<lparr>values_g := [[7, 0]]\<rparr>"]
      g c m b
    by simp
qed

text \<open>
  C8. For two genes of equal shape in the store, \<^verbatim>\<open>crossover\<close> appends a new Gene object
  and leaves both parents as they were; at every position the child's value is the first
  parent's where the mask is 1 and the second parent's where it is 0, so it is one of the
  two parents' values at that position. The constructor call with which \<^verbatim>\<open>crossover\<close>
  begins returns: always for a parent built from a literal, and for a parent built at
  random when the difference of its bounds is a finite double.
\<close>

theorem crossover_recombines:
  assumes a: "a < length h" and b: "b < length h"
      and shape: "has_shape (size_g (h ! a)) (values_g (h ! a))"
      and other: "has_shape (size_g (h ! a)) (values_g (h ! b))"
      and bounds: "min_val (h ! a) \<le> max_val (h ! a)"
      and ctor: "Gene (size_g (h ! a)) (min_val (h ! a)) (max_val (h ! a)) (init_values (h ! a)) d = Inr g0"
      and m: "integers_outcome 0 2 (size_g (h ! a)) m"
  shows "\<exists>child. crossover_at h a b d m = Inr (length h, h @ [child]) \<and>
     (h @ [child]) ! a = h ! a \<and> (h @ [child]) ! b = h ! b \<and>
     has_shape (size_g (h ! a)) (values_g child) \<and>
     (\<forall>i<fst (size_g (h ! a)). \<forall>j<snd (size_g (h ! a)).
        values_g child ! i ! j = (if m ! i ! j = 1 then values_g (h ! a) ! i ! j else values_g (h ! b) ! i ! j))"
proof -
  have ms: "has_shape (size_g (h ! a)) m" using m by (simp add: integers_outcome_def)
  have bit: "m ! i ! j = 0 \<or> m ! i ! j = 1" if "i < fst (size_g (h ! a))" "j < snd (size_g (h ! a))" for i j
    using all_entries_nth[OF ms _ that, of "\<lambda>m. 0 \<le> m \<and> m < 2"] m by (auto simp: integers_outcome_def)
  obtain child where child: "crossover (h ! a) (h ! b) d m = Inr child"
      "has_shape (size_g (h ! a)) (values_g child)"
      "\<forall>i<fst (size_g (h ! a)). \<forall>j<snd (size_g (h ! a)).
        values_g child ! i ! j = (if m ! i ! j \<noteq> 0 then values_g (h ! a) ! i ! j else values_g (h ! b) ! i ! j)"
    using crossover_result[OF shape other ctor m] by blast
  have "\<forall>i<fst (size_g (h ! a)). \<forall>j<snd (size_g (h ! a)).
        values_g child ! i ! j = (if m ! i ! j = 1 then values_g (h ! a) ! i ! j else values_g (h ! b) ! i ! j)"
  proof (intro allI impI)
    fix i j assume "i < fst (size_g (h ! a))" "j < snd (size_g (h ! a))"
    with child(3) bit[of i j] show "values_g child ! i ! j = (if m ! i ! j = 1 then values_g (h ! a) ! i ! j else values_g (h ! b) ! i ! j)"
      by auto
  qed
  then show ?thesis using child(1,2) a b by (simp add: crossover_at_def nth_append)
qed

text \<open>C8 at the store of \<open>gene_lo\<close> and \<open>gene_hi\<close> with the mask \<open>[[1, 0]]\<close>.\<close>

theorem crossover_recombines_witness:
  "crossover_at [gene_lo, gene_hi] 0 1 [] [[1, 0]] =
     Inr (2, [gene_lo, gene_hi, gene_lo\<lparr>values_g := [[0, 30]]\<rparr>])"
  using crossover_recombines[of 0 "[gene_lo, gene_hi]" 1 "[]" gene_lo "[[1, 0]]"]
  by (simp add: crossover_at_def crossover_def Gene_def gene_lo_def gene_hi_def rng_integers_def
      integers_outcome_def has_shape_def all_entries_def np_where_def where_row_def np_full_def)

subsection \<open>SignalingGameEnv\<close>

text \<open>
  C6. \<^verbatim>\<open>step\<close> fails when the episode is done. On the sender's turn it records the action
  as the message and passes the turn to the receiver, without setting \<^verbatim>\<open>done\<close>. On the
  receiver's turn it records the action, sets \<^verbatim>\<open>success\<close> to whether the action equals the
  hidden state, and sets \<^verbatim>\<open>done\<close>.
\<close>

theorem step_contract:
  "(done_flag e \<longrightarrow> step e a = Inl AssertionError) \<and>
   (\<not> done_flag e \<and> agent_selection e = Sender \<longrightarrow>
      (\<exists>e'. step e a = Inr e' \<and> message e' = Some a \<and> agent_selection e' = Receiver \<and>
            \<not> done_flag e' \<and> state e' = state e \<and> success e' = success e \<and> action e' = action e)) \<and>
   (\<not> done_flag e \<and> agent_selection e = Receiver \<longrightarrow>
      (\<exists>e'. step e a = Inr e' \<and> action e' = Some a \<and> success e' = Some (a = state e) \<and>
            done_flag e' \<and> state e' = state e \<and> message e' = message e))"
  by (auto simp: step_def)

text \<open>C6 at a finished episode, at the sender's turn and at the receiver's turn.\<close>

theorem step_contract_witness:
  "step env_finished 1 = Inl AssertionError \<and>
   (\<exists>e'. step env_fresh 1 = Inr e' \<and> message e' = Some 1 \<and> agent_selection e' = Receiver \<and> \<not> done_flag e') \<and>
   (\<exists>e'. step env_sent 0 = Inr e' \<and> action e' = Some 0 \<and> success e' = Some True \<and> done_flag e')"
  using step_contract[of env_finished 1] step_contract[of env_fresh 1] step_contract[of env_sent 0]
  by (auto simp add: env_finished_def env_sent_def env_fresh_def)

text \<open>The evaluation of \<^verbatim>\<open>rng.choice\<close> at a concrete distribution.\<close>

lemmas choice_defs = rng_choice_p_def sum_off_def sum_near_def choice_atol_def sum_slack_def

text \<open>
  C7 as stated fails: \<^verbatim>\<open>reset\<close> does not clear \<^verbatim>\<open>message\<close>. After one episode in which the
  sender sent 1, and a reset, observing the receiver returns 1 although no sender has
  stepped in the new episode.
\<close>

theorem observe_stale_message:
  "SignalingGameEnv 2 2 [1/2, 1/2] 0 = Inr env_fresh \<and> step env_fresh 1 = Inr env_sent \<and>
   step env_sent 0 = Inr env_finished \<and> reset env_finished 1 = Inr env_second \<and>
   message env_second = Some 1 \<and> observe env_second Receiver = Inr 1"
  by (simp add: SignalingGameEnv_def reset_def choice_defs step_def observe_def
      env_fresh_def env_sent_def env_finished_def env_second_def)

lemma reset_Inr:
  "reset e d = Inr e' \<Longrightarrow> e' = e\<lparr>state := d, success := None, done_flag := False, agent_selection := Sender\<rparr>"
  by (auto simp: reset_def rng_choice_p_def split: if_splits)

text \<open>
  C7, as amended. After a reset, observing the sender returns the hidden state that the
  reset drew, and after the sender has stepped, observing the receiver returns the
  sender's action. Observing the receiver right after a reset returns the message the
  environment held before the reset; it raises \<^verbatim>\<open>AttributeError\<close> only when no message
  was ever sent, as in a newly constructed environment.
\<close>

theorem observe_contract:
  "(SignalingGameEnv ns nm sd d0 = Inr e0 \<longrightarrow>
      observe e0 Sender = Inr d0 \<and> observe e0 Receiver = Inl AttributeError) \<and>
   (reset e d = Inr e' \<longrightarrow>
      state e' = d \<and> observe e' Sender = Inr d \<and>
      observe e' Receiver = (case message e of None \<Rightarrow> Inl AttributeError | Some m \<Rightarrow> Inr m) \<and>
      (\<exists>e''. step e' a = Inr e'' \<and> observe e'' Receiver = Inr a \<and> observe e'' Sender = Inr d))"
proof (intro conjI impI)
  assume "SignalingGameEnv ns nm sd d0 = Inr e0"
  then show "observe e0 Sender = Inr d0" "observe e0 Receiver = Inl AttributeError"
    by (auto simp: SignalingGameEnv_def observe_def dest!: reset_Inr)
next
  assume r: "reset e d = Inr e'"
  show "state e' = d" "observe e' Sender = Inr d"
    "observe e' Receiver = (case message e of None \<Rightarrow> Inl AttributeError | Some m \<Rightarrow> Inr m)"
    "\<exists>e''. step e' a = Inr e'' \<and> observe e'' Receiver = Inr a \<and> observe e'' Sender = Inr d"
    using reset_Inr[OF r] by (simp_all add: observe_def step_def)
qed

text \<open>C7 (amended) at a new environment and at the second episode of one.\<close>

theorem observe_contract_witness:
  "observe env_fresh Sender = Inr 0 \<and> observe env_fresh Receiver = Inl AttributeError \<and>
   observe env_second Sender = Inr 1 \<and> observe env_second Receiver = Inr 1 \<and>
   (\<exists>e''. step env_second 0 = Inr e'' \<and> observe e'' Receiver = Inr 0 \<and> observe e'' Sender = Inr 1)"
proof -
  have "SignalingGameEnv 2 2 [1/2, 1/2] 0 = Inr env_fresh" "reset env_finished 1 = Inr env_second"
    "message env_finished = Some 1"
    by (simp_all add: SignalingGameEnv_def reset_def choice_defs
        env_fresh_def env_sent_def env_finished_def env_second_def)
  then show ?thesis
    using observe_contract[of 2 2 "[1/2, 1/2]" 0 env_fresh env_finished 1 env_second 0] by simp
qed

subsection \<open>UrnAgent\<close>

lemma has_shape_update:
  "has_shape sz xs \<Longrightarrow> length row = snd sz \<Longrightarrow> has_shape sz (xs[i := row])"
  by (cases "i < length xs") (auto simp: has_shape_def list_all_length nth_list_update)

lemma add_rounded_Cons: "add_rounded s (r # rs) = add_rounded (fl (s + r)) rs"
  by (simp add: add_rounded_def)

lemma adds_exact_total: "adds_exact s rs \<Longrightarrow> add_rounded s rs = s + sum_list rs"
  by (induction rs arbitrary: s) (simp_all add: add_rounded_def)

lemma obs_rewards_total: "sum_list (obs_rewards buf obs) = obs_reward buf obs"
  by (induction buf) (auto simp: obs_rewards_def obs_reward_def)

lemma ball_rewards_total: "sum_list (ball_rewards buf obs c) = ball_reward buf obs c"
  by (induction buf) (auto simp: ball_rewards_def ball_reward_def split: if_splits)

lemma adds_exact_finite: "adds_exact s rs \<Longrightarrow> adds_finite s rs"
  by (induction rs arbitrary: s) simp_all

text \<open>The loop of \<^verbatim>\<open>train\<close> on a buffer whose records name urns and balls of the agent: when
  no addition overflows, it returns, and every count is the result of the rounded additions
  of its rewards.\<close>

lemma train_loop_rounded:
  assumes "agent_shape self"
      and "list_all (\<lambda>(obs, choice, reward). obs < num_obs self \<and> choice < num_choices self) buf"
      and "\<forall>obs<num_obs self. adds_finite (urn_sum_balls self ! obs) (obs_rewards buf obs) \<and>
             (\<forall>c<num_choices self. adds_finite (urn_balls self ! obs ! c) (ball_rewards buf obs c))"
  shows "\<exists>self'. train_loop buf self = Inr self' \<and> agent_shape self' \<and>
        num_obs self' = num_obs self \<and> num_choices self' = num_choices self \<and>
        train_buf self' = train_buf self \<and> bias_gene self' = bias_gene self \<and>
        (\<forall>obs<num_obs self.
           urn_sum_balls self' ! obs = add_rounded (urn_sum_balls self ! obs) (obs_rewards buf obs) \<and>
           (\<forall>c<num_choices self.
              urn_balls self' ! obs ! c = add_rounded (urn_balls self ! obs ! c) (ball_rewards buf obs c)))"
  using assms
proof (induction buf arbitrary: self)
  case Nil
  then show ?case by (simp add: obs_rewards_def ball_rewards_def add_rounded_def)
next
  case (Cons rec rest)
  obtain obs choice reward where rec: "rec = (obs, choice, reward)" by (cases rec)
  let ?ball = "fl (urn_balls self ! obs ! choice + reward)"
  let ?sum = "fl (urn_sum_balls self ! obs + reward)"
  let ?s1 = "self\<lparr>urn_balls := (urn_balls self)[obs := (urn_balls self ! obs)[choice := ?ball]],
                  urn_sum_balls := (urn_sum_balls self)[obs := ?sum]\<rparr>"
  from Cons.prems rec have range: "obs < num_obs self" "choice < num_choices self"
    and rest: "list_all (\<lambda>(obs, choice, reward). obs < num_obs self \<and> choice < num_choices self) rest"
    by simp_all
  from Cons.prems(1) have len: "length (urn_balls self) = num_obs self"
    "length (urn_sum_balls self) = num_obs self"
    and rows: "\<And>i. i < num_obs self \<Longrightarrow> length (urn_balls self ! i) = num_choices self"
    by (simp_all add: agent_shape_def has_shape_def list_all_length)
  have fin_sum: "adds_finite (urn_sum_balls self ! o') (obs_rewards (rec # rest) o')"
    and fin_ball: "adds_finite (urn_balls self ! o' ! c') (ball_rewards (rec # rest) o' c')"
    if "o' < num_obs self" "c' < num_choices self" for o' c'
    using Cons.prems(3) that by simp_all
  have finite: "finite64 ?ball" "finite64 ?sum"
    using fin_sum[OF range] fin_ball[OF range] by (simp_all add: rec obs_rewards_def ball_rewards_def)
  have step: "train_loop (rec # rest) self = train_loop rest ?s1"
    using finite range len rows[of obs] by (simp add: rec round64_def)
  have shape1: "agent_shape ?s1"
    using Cons.prems(1) rows[OF range(1)] by (simp add: agent_shape_def has_shape_update)
  have rest1: "list_all (\<lambda>(obs, choice, reward). obs < num_obs ?s1 \<and> choice < num_choices ?s1) rest"
    using rest by simp
  have fin1: "\<forall>o'<num_obs ?s1. adds_finite (urn_sum_balls ?s1 ! o') (obs_rewards rest o') \<and>
             (\<forall>c'<num_choices ?s1. adds_finite (urn_balls ?s1 ! o' ! c') (ball_rewards rest o' c'))"
  proof (intro allI impI conjI)
    fix o' assume o': "o' < num_obs ?s1"
    then have o: "o' < num_obs self" by simp
    show "adds_finite (urn_sum_balls ?s1 ! o') (obs_rewards rest o')"
      using fin_sum[OF o range(2)] o len by (cases "o' = obs") (simp_all add: rec obs_rewards_def)
    fix c' assume "c' < num_choices ?s1"
    then have c: "c' < num_choices self" by simp
    show "adds_finite (urn_balls ?s1 ! o' ! c') (ball_rewards rest o' c')"
      using fin_ball[OF o c] o c len rows[OF range(1)]
      by (cases "o' = obs"; cases "c' = choice") (simp_all add: rec ball_rewards_def)
  qed
  from Cons.IH[OF shape1 rest1 fin1]
  obtain self' where s': "train_loop rest ?s1 = Inr self'" "agent_shape self'"
      "num_obs self' = num_obs self" "num_choices self' = num_choices self"
      "train_buf self' = train_buf self" "bias_gene self' = bias_gene self"
    and ih: "\<forall>o'<num_obs self.
       urn_sum_balls self' ! o' = add_rounded (urn_sum_balls ?s1 ! o') (obs_rewards rest o') \<and>
       (\<forall>c<num_choices self.
          urn_balls self' ! o' ! c = add_rounded (urn_balls ?s1 ! o' ! c) (ball_rewards rest o' c))"
    by auto
  have "urn_sum_balls self' ! o' = add_rounded (urn_sum_balls self ! o') (obs_rewards (rec # rest) o') \<and>
       (\<forall>c<num_choices self.
          urn_balls self' ! o' ! c = add_rounded (urn_balls self ! o' ! c) (ball_rewards (rec # rest) o' c))"
    if o': "o' < num_obs self" for o'
  proof (cases "o' = obs")
    case True
    then show ?thesis
      using ih o' len rows[OF range(1)] range
      by (auto simp: rec obs_rewards_def ball_rewards_def add_rounded_Cons nth_list_update)
  next
    case False
    then show ?thesis
      using ih o' len by (auto simp: rec obs_rewards_def ball_rewards_def)
  qed
  then show ?case using step s' by auto
qed

text \<open>
  C4 as stated fails: the additions of \<^verbatim>\<open>train\<close> are rounded. On the agent built from a gene
  of zeros, with the urn \<open>[1, 1]\<close> and the running sum 2, the two records
  \<open>(0, 0, 2 ^ -52)\<close> and \<open>(0, 1, 2 ^ -52)\<close> raise both ball counts and leave the running sum
  at 2, which is neither the sum before plus the total reward \<open>2 ^ -51\<close> nor that number
  rounded; and a single reward of \<open>2 ^ -53\<close> leaves its ball count at 1.
\<close>

theorem train_absorbs_small_rewards:
  "train (agent_one\<lparr>train_buf := [(0, 0, 1 / 2 ^ 52), (0, 1, 1 / 2 ^ 52)]\<rparr>) =
     Inr (agent_one\<lparr>urn_balls := [[1 + 1 / 2 ^ 52, 1 + 1 / 2 ^ 52]]\<rparr>) \<and>
   urn_sum_balls (agent_one\<lparr>urn_balls := [[1 + 1 / 2 ^ 52, 1 + 1 / 2 ^ 52]]\<rparr>) ! 0 = 2 \<and>
   obs_reward [(0, 0, 1 / 2 ^ 52), (0, 1, 1 / 2 ^ 52)] 0 = 1 / 2 ^ 51 \<and>
   fl (urn_sum_balls agent_one ! 0 + 1 / 2 ^ 51) = 2 + 1 / 2 ^ 51 \<and>
   train (agent_one\<lparr>train_buf := [(0, 0, 1 / 2 ^ 53)]\<rparr>) = Inr agent_one \<and>
   urn_balls agent_one ! 0 ! 0 = 1"
proof -
  have a: "train (agent_one\<lparr>train_buf := [(0, 0, 1 / 2 ^ 52), (0, 1, 1 / 2 ^ 52)]\<rparr>) =
     Inr (agent_one\<lparr>urn_balls := [[1 + 1 / 2 ^ 52, 1 + 1 / 2 ^ 52]]\<rparr>)"
    by (simp add: train_def agent_one_def round64_def finite64_def fl_def rne_def
        quantum_eq[of 1022] quantum_eq[of 1023])
  have b: "train (agent_one\<lparr>train_buf := [(0, 0, 1 / 2 ^ 53)]\<rparr>) = Inr agent_one"
    by (simp add: train_def agent_one_def round64_def finite64_def fl_def rne_def
        quantum_eq[of 1022] quantum_eq[of 1023])
  have c: "fl (urn_sum_balls agent_one ! 0 + 1 / 2 ^ 51) = 2 + 1 / 2 ^ 51"
    by (simp add: agent_one_def fl_def rne_def quantum_eq[of 1023])
  show ?thesis using a b c by (simp add: agent_one_def obs_reward_def)
qed

text \<open>
  C4, as amended. For an agent with its urns in shape and a buffer whose records name urns
  and balls of the agent, when none of the additions overflows, \<^verbatim>\<open>train\<close> returns with an
  empty buffer. Every running sum is then the result of adding the rewards of the buffered
  records for its observation one after the other, each addition rounded, and every ball
  count is the result of adding the rewards of the records for its observation and choice in
  the same way. When every one of these additions is exact, the count is the count before
  plus the total reward.
\<close>

theorem train_adds_rewards:
  assumes "agent_shape self" and "buf_in_range self" and "train_finite self"
  shows "\<exists>self'. train self = Inr self' \<and> train_buf self' = [] \<and>
        (\<forall>obs<num_obs self.
           urn_sum_balls self' ! obs = add_rounded (urn_sum_balls self ! obs) (obs_rewards (train_buf self) obs) \<and>
           (adds_exact (urn_sum_balls self ! obs) (obs_rewards (train_buf self) obs) \<longrightarrow>
              urn_sum_balls self' ! obs = urn_sum_balls self ! obs + obs_reward (train_buf self) obs) \<and>
           (\<forall>c<num_choices self.
              urn_balls self' ! obs ! c =
                add_rounded (urn_balls self ! obs ! c) (ball_rewards (train_buf self) obs c) \<and>
              (adds_exact (urn_balls self ! obs ! c) (ball_rewards (train_buf self) obs c) \<longrightarrow>
                 urn_balls self' ! obs ! c = urn_balls self ! obs ! c + ball_reward (train_buf self) obs c)))"
proof -
  have fin: "\<forall>obs<num_obs self. adds_finite (urn_sum_balls self ! obs) (obs_rewards (train_buf self) obs) \<and>
             (\<forall>c<num_choices self. adds_finite (urn_balls self ! obs ! c) (ball_rewards (train_buf self) obs c))"
    using assms(3) by (simp add: train_finite_def list_all_iff)
  from train_loop_rounded[OF assms(1) _ fin] assms(2)
  obtain s1 where s1: "train_loop (train_buf self) self = Inr s1"
      "\<forall>obs<num_obs self.
           urn_sum_balls s1 ! obs = add_rounded (urn_sum_balls self ! obs) (obs_rewards (train_buf self) obs) \<and>
           (\<forall>c<num_choices self.
              urn_balls s1 ! obs ! c = add_rounded (urn_balls self ! obs ! c) (ball_rewards (train_buf self) obs c))"
    by (auto simp: buf_in_range_def)
  then show ?thesis
    by (auto simp: train_def adds_exact_total obs_rewards_total ball_rewards_total)
qed

text \<open>C4 (amended) at an agent with three buffered records.\<close>

theorem train_adds_rewards_witness:
  "train (agent_one\<lparr>train_buf := [(0, 1, 1), (0, 0, 2), (0, 1, 3)]\<rparr>) =
     Inr (agent_one\<lparr>urn_balls := [[3, 5]], urn_sum_balls := [8]\<rparr>)"
proof -
  have fl: "fl 2 = 2" "fl 3 = 3" "fl 4 = 4" "fl 5 = 5" "fl 8 = 8"
    by (simp_all add: fl_def rne_def quantum_eq[of 1023] quantum_eq[of 1024] quantum_eq[of 1025])
  have run: "train (agent_one\<lparr>train_buf := [(0, 1, 1), (0, 0, 2), (0, 1, 3)]\<rparr>) =
     Inr (agent_one\<lparr>urn_balls := [[3, 5]], urn_sum_balls := [8]\<rparr>)"
    by (simp add: train_def agent_one_def round64_def finite64_def fl)
  show ?thesis
    using train_adds_rewards[of "agent_one\<lparr>train_buf := [(0, 1, 1), (0, 0, 2), (0, 1, 3)]\<rparr>"] run
    by (simp add: agent_one_def agent_shape_def has_shape_def buf_in_range_def train_finite_def
        obs_rewards_def ball_rewards_def upt_rec numeral_2_eq_2 finite64_def fl)
qed








text \<open>
  The constructor establishes, and \<^verbatim>\<open>train\<close> keeps, the shape of the urns.
\<close>

lemma np_add_length: "np_add x y = Inr row \<Longrightarrow> length y = length x \<Longrightarrow> length row = length x"
  by (auto simp: np_add_def split: if_splits)

lemma apply_bias_shape:
  assumes "apply_bias vs obs_list self = Inr self'" and "agent_shape self"
      and "list_all (\<lambda>ob. ob < num_obs self) obs_list"
  shows "agent_shape self' \<and> num_obs self' = num_obs self \<and> num_choices self' = num_choices self \<and>
     train_buf self' = train_buf self \<and> bias_gene self' = bias_gene self"
  using assms
proof (induction obs_list arbitrary: self)
  case Nil
  then show ?case by simp
next
  case (Cons ob rest)
  from Cons.prems(3) have ob: "ob < num_obs self" and rest: "list_all (\<lambda>ob. ob < num_obs self) rest"
    by simp_all
  from Cons.prems(2) ob have len: "length (urn_balls self ! ob) = num_choices self"
    by (simp add: agent_shape_def has_shape_def list_all_length)
  from Cons.prems(1) obtain row new_sum where eq: "length (vs ! ob) = length (urn_balls self ! ob)"
    and row: "np_add (urn_balls self ! ob) (vs ! ob) = Inr row"
    and run: "apply_bias vs rest (self\<lparr>urn_balls := (urn_balls self)[ob := row],
                 urn_sum_balls := (urn_sum_balls self)[ob := new_sum]\<rparr>) = Inr self'"
    by (auto split: if_splits sum.splits)
  let ?s1 = "self\<lparr>urn_balls := (urn_balls self)[ob := row], urn_sum_balls := (urn_sum_balls self)[ob := new_sum]\<rparr>"
  have "length row = num_choices self" using np_add_length[OF row eq] len by simp
  then have shape1: "agent_shape ?s1"
    using Cons.prems(2) by (simp add: agent_shape_def has_shape_update)
  show ?case using Cons.IH[OF run shape1] rest by simp
qed

lemma UrnAgent_shape:
  assumes "UrnAgent h a = Inr ag"
  shows "agent_shape ag \<and> train_buf ag = [] \<and> bias_gene ag = a \<and>
     num_obs ag = fst (size_g (h ! a)) \<and> num_choices ag = snd (size_g (h ! a))"
proof -
  let ?n = "fst (size_g (h ! a))" and ?k = "snd (size_g (h ! a))"
  let ?s0 = "\<lparr>bias_gene = a, num_obs = ?n, num_choices = ?k,
            urn_balls = replicate ?n (replicate ?k 1),
            urn_sum_balls = replicate ?n (real ?k), train_buf = []\<rparr>"
  have s0: "agent_shape ?s0" by (simp add: agent_shape_def has_shape_def list_all_length)
  from assms have run: "apply_bias (values_g (h ! a)) [0..<?n] ?s0 = Inr ag"
    by (simp add: UrnAgent_def Let_def)
  show ?thesis using apply_bias_shape[OF run s0] by (simp add: list_all_iff)
qed

lemma train_loop_shape:
  assumes "train_loop buf self = Inr self'" and "agent_shape self"
  shows "agent_shape self' \<and> num_obs self' = num_obs self \<and> num_choices self' = num_choices self"
  using assms
proof (induction buf arbitrary: self)
  case Nil
  then show ?case by simp
next
  case (Cons rec rest)
  obtain obs choice reward where rec: "rec = (obs, choice, reward)" by (cases rec)
  from Cons.prems(1) obtain ball new_sum where obs: "obs < length (urn_balls self)"
    and run: "train_loop rest (self\<lparr>urn_balls := (urn_balls self)[obs := (urn_balls self ! obs)[choice := ball]],
                 urn_sum_balls := (urn_sum_balls self)[obs := new_sum]\<rparr>) = Inr self'"
    by (auto simp: rec split: if_splits sum.splits)
  let ?s1 = "self\<lparr>urn_balls := (urn_balls self)[obs := (urn_balls self ! obs)[choice := ball]],
                 urn_sum_balls := (urn_sum_balls self)[obs := new_sum]\<rparr>"
  have "length (urn_balls self ! obs) = num_choices self"
    using Cons.prems(2) obs by (simp add: agent_shape_def has_shape_def list_all_length)
  then have "agent_shape ?s1"
    using Cons.prems(2) by (simp add: agent_shape_def has_shape_update)
  from Cons.IH[OF run this] show ?case by simp
qed

lemma train_keeps_shape:
  assumes "agent_shape self" and "train self = Inr self'"
  shows "agent_shape self' \<and> buf_in_range self' \<and> num_obs self' = num_obs self \<and>
     num_choices self' = num_choices self"
  using assms train_loop_shape[of "train_buf self" self]
  by (auto simp: train_def buf_in_range_def agent_shape_def split: sum.splits)

subsection \<open>The configuration cell and the evolution loop\<close>

text \<open>The definitions that evaluate the configuration cell, an episode and a replacement at
  concrete inputs.\<close>

lemmas cell_defs = config_cell_def SignalingGameEnv_def reset_def choice_defs
      make_matching_dists_def upt_rec Gene_def np_full_def Creature_def UrnAgent_def np_add_def Let_def
      rng_geometric_def numeral_2_eq_2 float_values

lemmas episode_defs = run_episode_def rng_integers_scalar_def observe_def get_action_def urn_probs_def step_def
     store_buffer_def settle_def choice_bias_def update_reward_def train_def

lemmas breed_defs = replacement_def breed_def rng_choice_sample_def sample_outcome_def select_genes_def
    mutate_at_def mutate_def rng_uniform_def uniform_outcome_def in_uniform_def has_shape_def
    all_entries_def np_where_def where_row_def crossover_at_def crossover_def rng_integers_def
    integers_outcome_def sorted_by_fitness_def

text \<open>The configuration cell and the episode of the concrete configuration return.\<close>

lemma config_cell_unchecked_returns: "\<not> isl (config_cell cfg_unchecked sd_unchecked)"
  by (simp add: cfg_unchecked_def sd_unchecked_def cell_defs)

lemma episode_unchecked_returns: "\<not> isl (run_episodes cfg_unchecked ed_unchecked [0] world_unchecked)"
  by (simp add: world_unchecked_def cfg_unchecked_def sd_unchecked_def cell_defs
     ed_unchecked_def episode_defs)

text \<open>With a tournament larger than the population, the replacement raises at the first
  slot whose creature has expired.\<close>

lemma replace_slots_oversized_tournament:
  assumes "length old < tornament_size cfg"
      and "list_all (\<lambda>i. i < length old) slots"
      and "list_ex (\<lambda>i. lifespan (old ! i) \<le> 1) slots"
  shows "replace_slots cfg d old slots h new_population = Inl ValueError"
  using assms(2,3)
proof (induction slots arbitrary: h new_population)
  case Nil
  then show ?case by simp
next
  case (Cons i rest)
  show ?case
  proof (cases "1 < lifespan (old ! i)")
    case True
    then show ?thesis using Cons by simp
  next
    case False
    then show ?thesis using Cons.prems(1) assms(1) by (simp add: breed_def rng_choice_sample_def)
  qed
qed

text \<open>A sum within the tolerance is not off it.\<close>

lemma sum_slack_nonneg: "0 \<le> sum_slack p"
  unfolding sum_slack_def by (intro divide_nonneg_nonneg mult_nonneg_nonneg sum_list_nonneg) auto

lemma near_not_off: "sum_near p \<Longrightarrow> \<not> sum_off p"
  using sum_slack_nonneg[of p] by (simp add: sum_near_def sum_off_def)

text \<open>With inverted bounds and genes drawn at random, the first constructor call of the
  initial population raises.\<close>

lemma init_population_inverted:
  assumes "max_bias cfg < min_bias cfg" and "init_bias cfg = Random"
  shows "init_population cfg sd (i # rest) h pop = Inl ValueError \<or>
     init_population cfg sd (i # rest) h pop = Inl OverflowError"
  using assms by (simp add: Gene_def rng_uniform_def)

text \<open>
  C3, as amended. The environment's constructor passes the state distribution to
  \<^verbatim>\<open>rng.choice\<close>, which raises \<^verbatim>\<open>ValueError\<close> before the loop when the sum is off 1 by more
  than the tolerance \<open>2 ^ -26\<close>, and accepts a distribution whose sum is within the
  tolerance. Inverted bounds make the configuration cell raise when the initial genes are
  drawn at random; with a literal the constructor accepts any bounds. The tournament size is
  read neither by the configuration cell nor by the episodes: a tournament larger than the
  population raises \<^verbatim>\<open>ValueError\<close> in the replacement step, once a creature has expired.
\<close>

theorem validation_sites:
  "(sum_off (c_state_dist cfg) \<longrightarrow> config_cell cfg sd = Inl ValueError) \<and>
   (0 < c_num_states cfg \<and> length (c_state_dist cfg) = c_num_states cfg \<and>
    list_all (\<lambda>x. 0 \<le> x) (c_state_dist cfg) \<and> sum_near (c_state_dist cfg) \<and>
    s_state sd < c_num_states cfg \<longrightarrow>
      (\<exists>e. SignalingGameEnv (c_num_states cfg) (c_num_messages cfg) (c_state_dist cfg) (s_state sd) = Inr e)) \<and>
   (max_bias cfg < min_bias cfg \<and> init_bias cfg = Random \<and> 0 < pop_size cfg \<and>
    SignalingGameEnv (c_num_states cfg) (c_num_messages cfg) (c_state_dist cfg) (s_state sd) = Inr e0 \<longrightarrow>
      config_cell cfg sd = Inl ValueError \<or> config_cell cfg sd = Inl OverflowError \<or>
      config_cell cfg sd = Inl ZeroDivisionError) \<and>
   \<not> isl (Gene sz lo hi (Literal v) draw) \<and>
   config_cell (cfg\<lparr>tornament_size := k\<rparr>) sd = config_cell cfg sd \<and>
   run_episodes (cfg\<lparr>tornament_size := k\<rparr>) ed episodes w = run_episodes cfg ed episodes w \<and>
   (length (population w) < tornament_size cfg \<and> pop_size cfg = length (population w) \<and>
      list_ex (\<lambda>c. lifespan c \<le> 1) (population w) \<longrightarrow>
      replacement cfg td w = Inl ValueError)"
proof (intro conjI impI)
  assume "sum_off (c_state_dist cfg)"
  then show "config_cell cfg sd = Inl ValueError"
    by (simp add: config_cell_def SignalingGameEnv_def reset_def rng_choice_p_def)
next
  assume a: "0 < c_num_states cfg \<and> length (c_state_dist cfg) = c_num_states cfg \<and>
    list_all (\<lambda>x. 0 \<le> x) (c_state_dist cfg) \<and> sum_near (c_state_dist cfg) \<and>
    s_state sd < c_num_states cfg"
  then have "\<not> sum_off (c_state_dist cfg)"
    by (simp add: near_not_off)
  then show "\<exists>e. SignalingGameEnv (c_num_states cfg) (c_num_messages cfg) (c_state_dist cfg) (s_state sd) = Inr e"
    using a by (simp add: SignalingGameEnv_def reset_def rng_choice_p_def)
next
  assume a: "max_bias cfg < min_bias cfg \<and> init_bias cfg = Random \<and> 0 < pop_size cfg \<and>
    SignalingGameEnv (c_num_states cfg) (c_num_messages cfg) (c_state_dist cfg) (s_state sd) = Inr e0"
  then have "[0..<pop_size cfg] = 0 # [1..<pop_size cfg]" by (simp add: upt_rec)
  then have "init_population cfg sd [0..<pop_size cfg] [] [] = Inl ValueError \<or>
     init_population cfg sd [0..<pop_size cfg] [] [] = Inl OverflowError"
    using init_population_inverted[of cfg sd 0 "[1..<pop_size cfg]" "[]" "[]"] a by simp
  moreover have "make_matching_dists cfg = Inl ZeroDivisionError \<or> (\<exists>md. make_matching_dists cfg = Inr md)"
    by (simp add: make_matching_dists_def)
  ultimately show "config_cell cfg sd = Inl ValueError \<or> config_cell cfg sd = Inl OverflowError \<or>
      config_cell cfg sd = Inl ZeroDivisionError"
    using a by (auto simp: config_cell_def)
next
  show "\<not> isl (Gene sz lo hi (Literal v) draw)" by (simp add: Gene_def)
next
  have "init_population (cfg\<lparr>tornament_size := k\<rparr>) sd is h pop = init_population cfg sd is h pop" for "is" h pop
    by (induction "is" arbitrary: h pop) (simp_all split: sum.splits)
  moreover have "make_matching_dists (cfg\<lparr>tornament_size := k\<rparr>) = make_matching_dists cfg"
    by (simp add: make_matching_dists_def)
  ultimately show "config_cell (cfg\<lparr>tornament_size := k\<rparr>) sd = config_cell cfg sd"
    by (simp add: config_cell_def cong: sum.case_cong)
next
  have st: "settle (cfg\<lparr>tornament_size := k\<rparr>) = settle cfg"
    by (intro ext) (simp add: settle_def cong: sum.case_cong)
  have "run_episode (cfg\<lparr>tornament_size := k\<rparr>) d w' = run_episode cfg d w'" for d w'
    unfolding run_episode_def st by simp
  then show "run_episodes (cfg\<lparr>tornament_size := k\<rparr>) ed episodes w = run_episodes cfg ed episodes w"
    by (induction episodes arbitrary: w) (simp_all split: sum.splits)
next
  assume a: "length (population w) < tornament_size cfg \<and> pop_size cfg = length (population w) \<and>
      list_ex (\<lambda>c. lifespan c \<le> 1) (population w)"
  then have "list_ex (\<lambda>i. lifespan (population w ! i) \<le> 1) [0..<length (population w)]"
    by (fastforce simp: list_ex_iff in_set_conv_nth)
  then have "replace_slots cfg td (population w) [0..<pop_size cfg] (genes w) [] = Inl ValueError"
    using a by (intro replace_slots_oversized_tournament) (simp_all add: list_all_iff)
  then show "replacement cfg td w = Inl ValueError" by (simp add: replacement_def)
qed

text \<open>
  C3 as stated fails: with inverted bounds (and a literal initial bias) and a tournament of 2
  in a population of 1, the configuration cell returns, the episode of the first generation
  runs to a success, and only the replacement step raises \<^verbatim>\<open>ValueError\<close>.
\<close>

theorem configuration_not_validated:
  "max_bias cfg_unchecked < min_bias cfg_unchecked \<and>
   pop_size cfg_unchecked < tornament_size cfg_unchecked \<and>
   config_cell cfg_unchecked sd_unchecked = Inr world_unchecked \<and>
   run_episodes cfg_unchecked ed_unchecked
     [0..<num_episodes_per_creature cfg_unchecked * pop_size cfg_unchecked] world_unchecked = Inr world_played \<and>
   success (env_w world_played) = Some True \<and>
   replacement cfg_unchecked td_unchecked world_played = Inl ValueError \<and>
   notebook cfg_unchecked sd_unchecked gd_unchecked = Inl ValueError"
proof -
  have eps: "[0..<num_episodes_per_creature cfg_unchecked * pop_size cfg_unchecked] = [0]"
    by (simp add: cfg_unchecked_def)
  have a: "config_cell cfg_unchecked sd_unchecked = Inr world_unchecked"
    using config_cell_unchecked_returns by (simp add: world_unchecked_def)
  have b: "run_episodes cfg_unchecked ed_unchecked [0] world_unchecked = Inr world_played"
    using episode_unchecked_returns by (simp add: world_played_def)
  have c: "success (env_w world_played) = Some True"
    by (simp add: world_played_def world_unchecked_def cfg_unchecked_def sd_unchecked_def cell_defs
     ed_unchecked_def episode_defs)
  have d: "replacement cfg_unchecked td_unchecked world_played = Inl ValueError"
    by (simp add: world_played_def world_unchecked_def cfg_unchecked_def sd_unchecked_def cell_defs
     ed_unchecked_def episode_defs replacement_def breed_def rng_choice_sample_def)
  have pop: "length (population world_played) \<noteq> 0"
    by (simp add: world_played_def world_unchecked_def cfg_unchecked_def sd_unchecked_def cell_defs
     ed_unchecked_def episode_defs)
  have g: "generation cfg_unchecked (gd_unchecked 0) world_unchecked = Inl ValueError"
    by (simp only: generation_def gd_unchecked_def generation_draws.simps eps b d pop sum.case if_False)
  have gens: "[0..<num_gen cfg_unchecked] = [0]"
    by (simp add: cfg_unchecked_def)
  have e: "notebook cfg_unchecked sd_unchecked gd_unchecked = Inl ValueError"
    by (simp only: notebook_def a gens evolution.simps g sum.case)
  show ?thesis using a b c d e by (simp add: eps) (simp add: cfg_unchecked_def)
qed

text \<open>C3 (amended) at four variants of the concrete configuration: a distribution that sums to
  3/4, one that sums to \<open>1 + 2 ^ -30\<close>, inverted bounds with genes drawn at random, and the
  oversized tournament.\<close>

theorem validation_sites_witness:
  "config_cell (cfg_unchecked\<lparr>c_state_dist := [1/2, 1/4]\<rparr>) sd_unchecked = Inl ValueError \<and>
   (\<exists>e. SignalingGameEnv 2 2 [1/2, 1/2 + 1 / 2 ^ 30] 0 = Inr e) \<and>
   config_cell (cfg_unchecked\<lparr>init_bias := Random\<rparr>) sd_unchecked = Inl ValueError \<and>
   replacement cfg_unchecked td_unchecked world_played = Inl ValueError"
proof -
  have "length (population world_played) = 1 \<and> list_ex (\<lambda>c. lifespan c \<le> 1) (population world_played)"
    by (simp add: world_played_def world_unchecked_def cfg_unchecked_def sd_unchecked_def cell_defs
     ed_unchecked_def episode_defs)
  moreover have "config_cell (cfg_unchecked\<lparr>init_bias := Random\<rparr>) sd_unchecked = Inl ValueError"
    by (simp add: cfg_unchecked_def sd_unchecked_def cell_defs rng_uniform_def)
  ultimately show ?thesis
    using validation_sites[where cfg = "cfg_unchecked\<lparr>c_state_dist := [1/2, 1/4]\<rparr>" and sd = sd_unchecked]
      validation_sites[where cfg = "cfg_unchecked\<lparr>c_state_dist := [1/2, 1/2 + 1 / 2 ^ 30]\<rparr>" and sd = sd_unchecked]
      validation_sites[where cfg = "cfg_unchecked\<lparr>init_bias := Random\<rparr>" and sd = sd_unchecked
        and ?e0.0 = env_fresh]
      validation_sites[where cfg = cfg_unchecked and w = world_played and td = td_unchecked]
    by (simp add: cfg_unchecked_def sd_unchecked_def sum_off_def sum_near_def sum_slack_def choice_atol_def)
qed

text \<open>
  With crossover, every offspring gets two Gene objects that are new in the store, so a
  replacement keeps a population free of shared Gene objects.
\<close>

lemma breed_crossover_fresh:
  assumes "do_crossover cfg" and "breed cfg d old h = Inr (h', c)"
  shows "gene_addresses c = [length h, Suc (length h)] \<and> length h' = Suc (Suc (length h))"
  using assms
  by (auto simp: breed_def select_genes_def crossover_at_def mutate_at_def Creature_def gene_addresses_def
      split: sum.splits if_splits prod.splits)

lemma replace_slots_crossover_distinct:
  assumes "do_crossover cfg"
      and "replace_slots cfg d old slots h acc = Inr (h', new)"
      and "distinct (concat (map gene_addresses acc) @ concat (map (\<lambda>i. gene_addresses (old ! i)) slots))"
      and "list_all (\<lambda>a. a < length h) (concat (map gene_addresses acc) @ concat (map (\<lambda>i. gene_addresses (old ! i)) slots))"
  shows "distinct (concat (map gene_addresses new))"
  using assms(2-)
proof (induction slots arbitrary: h acc)
  case Nil
  then show ?case by simp
next
  case (Cons i rest)
  from Cons.prems(1) have i: "i < length old" by (simp split: if_splits)
  show ?case
  proof (cases "1 < lifespan (old ! i)")
    case True
    let ?c = "(old ! i)\<lparr>lifespan := lifespan (old ! i) - 1\<rparr>"
    have same: "gene_addresses ?c = gene_addresses (old ! i)" by (simp add: gene_addresses_def)
    from True Cons.prems(1) i have run: "replace_slots cfg d old rest h (acc @ [?c]) = Inr (h', new)" by simp
    show ?thesis
      by (rule Cons.IH[OF run]) (use Cons.prems(2,3) same in simp_all)
  next
    case False
    with Cons.prems(1) i obtain h1 c where b: "breed cfg (d i) old h = Inr (h1, c)"
      and run: "replace_slots cfg d old rest h1 (acc @ [c]) = Inr (h', new)"
      by (auto split: sum.splits)
    from breed_crossover_fresh[OF assms(1) b]
    have fresh: "gene_addresses c = [length h, Suc (length h)]" "length h1 = Suc (Suc (length h))" by simp_all
    define A where "A = concat (map gene_addresses acc)"
    define R where "R = concat (map (\<lambda>i. gene_addresses (old ! i)) rest)"
    from Cons.prems(2) have dist: "distinct A" "distinct R" "set A \<inter> set R = {}"
      by (auto simp: A_def R_def)
    from Cons.prems(3) have below: "\<And>a. a \<in> set A \<union> set R \<Longrightarrow> a < length h"
      by (auto simp: A_def R_def list_all_iff)
    have notin: "length h \<notin> set A \<union> set R" "Suc (length h) \<notin> set A \<union> set R"
      using below[of "length h"] below[of "Suc (length h)"] by auto
    show ?thesis
    proof (rule Cons.IH[OF run])
      have "distinct ((A @ [length h, Suc (length h)]) @ R)"
        using dist notin by auto
      then show "distinct (concat (map gene_addresses (acc @ [c])) @ concat (map (\<lambda>i. gene_addresses (old ! i)) rest))"
        by (simp add: A_def R_def fresh(1))
      have "list_all (\<lambda>a. a < length h1) ((A @ [length h, Suc (length h)]) @ R)"
        using below fresh(2) by (auto simp: list_all_iff intro: less_SucI)
      then show "list_all (\<lambda>a. a < length h1) (concat (map gene_addresses (acc @ [c])) @ concat (map (\<lambda>i. gene_addresses (old ! i)) rest))"
        by (simp add: A_def R_def fresh(1))
    qed
  qed
qed

lemma replacement_with_crossover_no_sharing:
  assumes "do_crossover cfg" and "pop_size cfg = length (population w)"
      and "no_shared_genes (population w)"
      and "list_all (\<lambda>a. a < length (genes w)) (concat (map gene_addresses (population w)))"
      and "replacement cfg d w = Inr w'"
  shows "no_shared_genes (population w')"
proof -
  from assms(5) obtain h' new where run: "replace_slots cfg d (population w) [0..<pop_size cfg] (genes w) [] = Inr (h', new)"
    and w': "population w' = new"
    by (auto simp: replacement_def split: sum.splits)
  have old: "map (\<lambda>i. gene_addresses (population w ! i)) [0..<pop_size cfg] = map gene_addresses (population w)"
    unfolding assms(2) by (rule nth_equalityI) simp_all
  have "distinct (concat (map gene_addresses new))"
    by (rule replace_slots_crossover_distinct[OF assms(1) run])
       (use assms(3,4) old in \<open>simp_all add: no_shared_genes_def\<close>)
  then show ?thesis by (simp add: no_shared_genes_def w')
qed

lemma crossover_path_makes_new_genes:
  "\<exists>w1. notebook (cfg_clone\<lparr>do_crossover := True\<rparr>) sd_clone gd_clone = Inr w1 \<and>
     map gene_addresses (population w1) = [[4, 5], [2, 3]] \<and>
     no_shared_genes (population w1)"
  by (simp add: cfg_clone_def sd_clone_def td_clone_def gd_clone_def cell_defs episode_defs breed_defs
      no_shared_genes_def gene_addresses_def notebook_def generation_def)

text \<open>Without crossover, every offspring holds the Gene objects of a creature of its
  tournament, and no Gene object is created.\<close>

lemma max_fitness_mem: "max_fitness c cs \<in> set (c # cs)"
  by (induction cs arbitrary: c) (auto split: if_splits)

lemma breed_without_crossover_aliases:
  assumes "\<not> do_crossover cfg" and "breed cfg d old h = Inr (h', c)"
  shows "length h' = length h \<and> (\<exists>i\<in>set (t_tournament d). bias_genes c = bias_genes (old ! i))"
proof -
  from assms obtain p ps where t: "map (\<lambda>i. old ! i) (t_tournament d) = p # ps"
    and c: "bias_genes c = bias_genes (max_fitness p ps)" and len: "length h' = length h"
    by (auto simp: breed_def select_genes_def rng_choice_sample_def mutate_at_def Creature_def
        split: sum.splits if_splits prod.splits list.splits)
  have "max_fitness p ps \<in> set (map (\<lambda>i. old ! i) (t_tournament d))"
    unfolding t by (rule max_fitness_mem)
  then show ?thesis using c len by auto
qed

text \<open>
  C2 fails on the code when crossover is disabled. The notebook is run for one generation on
  two creatures with their own Gene objects. The first creature expires; the second wins the
  tournament and lives on. In the new population both creatures hold the Gene objects 2 and
  3, and \<^verbatim>\<open>mutate\<close> has changed the values of the survivor's gene in place.
\<close>

theorem offspring_shares_winner_genes:
  "\<exists>w0 w1. config_cell cfg_clone sd_clone = Inr w0 \<and>
     map gene_addresses (population w0) = [[0, 1], [2, 3]] \<and>
     no_shared_genes (population w0) \<and>
     map lifespan (population w0) = [1, 2] \<and>
     values_g (genes w0 ! 2) = [[0, 0], [0, 0]] \<and>
     notebook cfg_clone sd_clone gd_clone = Inr w1 \<and>
     map gene_addresses (population w1) = [[2, 3], [2, 3]] \<and>
     map lifespan (population w1) = [3, 1] \<and>
     \<not> no_shared_genes (population w1) \<and>
     values_g (genes w1 ! 2) = [[7, 0], [0, 0]]"
  by (simp add: cfg_clone_def sd_clone_def td_clone_def gd_clone_def cell_defs episode_defs breed_defs
      no_shared_genes_def gene_addresses_def notebook_def generation_def)

end
